theory Spec2Isabelle
  imports Main
begin

section \<open>The useMutationObserver hook\<close>

text \<open>
  The repository is one React hook, \<^verbatim>\<open>useMutationObserver(target, callback, options)\<close>
  in \<^verbatim>\<open>src/index.tsx\<close>. It keeps two \<^verbatim>\<open>useState\<close> cells (\<^verbatim>\<open>observer\<close>, \<^verbatim>\<open>value\<close>),
  builds the notification closure \<^verbatim>\<open>handleChanges\<close> on every render and registers two
  effects: one that creates a \<^verbatim>\<open>MutationObserver\<close> and stores it in the \<^verbatim>\<open>observer\<close>
  cell, one that calls \<^verbatim>\<open>observer.observe(target, options)\<close> and returns a cleanup that
  calls \<^verbatim>\<open>observer.disconnect()\<close>.

  The embedding is a state machine over one instance of the hook. The state holds the two
  cells, what the effect runtime remembers between renders (the dependency arrays of the
  last commit and the pending cleanup), the \<^verbatim>\<open>MutationObserver\<close> objects allocated so
  far, and a trace of the calls the hook made to the outside (constructor, \<^verbatim>\<open>observe\<close>,
  \<^verbatim>\<open>disconnect\<close>, \<^verbatim>\<open>console.warn\<close>, \<^verbatim>\<open>console.error\<close>, the caller's callback).
\<close>

subsection \<open>Data\<close>

text \<open>Objects are compared by reference in the source; a reference is a natural number.\<close>

type_synonym Element = nat

datatype MutationRecord =
  MutationRecord (mr_type: string) (mr_target: Element)
    (mr_attributeName: "string option") (mr_oldValue: "string option")

text \<open>
  \<^verbatim>\<open>type MutationObserverOptions\<close> (lines 4-14): every field is optional; \<open>obj_id\<close> is the
  identity of the object, which is what a dependency array compares; \<open>extra\<close> holds the
  keys admitted by the index signature.
\<close>

record MutationObserverOptions =
  obj_id :: nat
  attributes :: "bool option"
  attributeOldValue :: "bool option"
  attributeFilter :: "string list option"
  characterData :: "bool option"
  characterDataOldValue :: "bool option"
  childList :: "bool option"
  subtree :: "bool option"
  extra :: "(string \<times> string) list"

text \<open>Lines 16-18: the module-level constant \<^verbatim>\<open>{ attributes: true }\<close>, one object.\<close>

definition defaultMutationObserverOptions :: MutationObserverOptions where
  "defaultMutationObserverOptions =
     \<lparr>obj_id = 0, attributes = Some True, attributeOldValue = None, attributeFilter = None,
      characterData = None, characterDataOldValue = None, childList = None, subtree = None,
      extra = []\<rparr>"

text \<open>
  What the callback returns when it does not return \<^verbatim>\<open>undefined\<close>: a value that is not a
  function, or a function. The state setter of line 80 tells the two apart, so the model
  does too; a function is given as what it returns for the stored value it is applied to
  (\<open>None\<close> is \<^verbatim>\<open>undefined\<close> on both sides).
\<close>

datatype 'v result =
  Value 'v
  | Updater "'v option \<Rightarrow> 'v option"

text \<open>
  The \<^verbatim>\<open>callback\<close> argument: left out (\<^verbatim>\<open>undefined\<close>), a value that is not a function,
  or a function of the batch and the observer whose result \<open>None\<close> is \<^verbatim>\<open>undefined\<close>.
  The function is taken to be total and free of effects of its own.
\<close>

datatype 'v callback_arg =
  Undefined
  | NotAFunction
  | Function "MutationRecord list \<Rightarrow> nat \<Rightarrow> 'v result option"

text \<open>
  \<^verbatim>\<open>handleChanges\<close> is an arrow function, so each render builds a new function object;
  what it closes over is the \<^verbatim>\<open>observer\<close> cell and the \<^verbatim>\<open>callback\<close> of that render.
\<close>

record 'v closure =
  cl_observer :: "nat option"
  cl_callback :: "'v callback_arg"

text \<open>
  A \<^verbatim>\<open>MutationObserver\<close> object of the browser: its callback and the nodes it is
  registered on (empty when it observes nothing).
\<close>

record 'v MutationObserver =
  mo_callback :: "'v closure"
  mo_nodes :: "(Element \<times> MutationObserverOptions) list"

datatype exn = TypeError | OtherError string

text \<open>
  The calls the hook makes to the outside; the trace lists them in the order they are
  made. \<open>Observe\<close> is the call of \<^verbatim>\<open>observe\<close>, whether it throws or not, and
  \<open>CallbackInvoked\<close> carries the batch, the observer passed and the result.
\<close>

datatype 'v action =
  NewObserver nat
  | Observe nat Element MutationObserverOptions
  | Disconnect nat
  | ConsoleWarn string
  | ConsoleError exn
  | CallbackInvoked "MutationRecord list" nat "'v result option"

record 'v hook =
  st_observer :: "nat option"
  st_value :: "'v option"
  deps1 :: "(nat \<times> nat) option"
  deps2 :: "(nat option \<times> Element option \<times> nat) option"
  cleanup2 :: "nat option"
  unmounted :: bool
  next_fn :: nat
  next_obs :: nat
  observers :: "nat \<Rightarrow> 'v MutationObserver option"
  trace :: "'v action list"

text \<open>
  \<open>st_observer\<close>, \<open>st_value\<close>: the cells of lines 71-72 (\<open>None\<close> is \<^verbatim>\<open>null\<close>, resp.
  \<^verbatim>\<open>undefined\<close>). \<open>deps1\<close>, \<open>deps2\<close>: the dependency arrays \<^verbatim>\<open>[handleChanges, options]\<close>
  and \<^verbatim>\<open>[observer, target, options]\<close> of the last commit, \<open>None\<close> before the first.
  \<open>cleanup2\<close>: the observer that the cleanup returned by the second effect will
  disconnect, \<open>None\<close> when that effect returned nothing. \<open>next_fn\<close>, \<open>next_obs\<close>:
  the references handed to the next function object and the next \<^verbatim>\<open>MutationObserver\<close>.
\<close>

definition init :: "'v hook" where
  "init = \<lparr>st_observer = None, st_value = None, deps1 = None, deps2 = None, cleanup2 = None,
           unmounted = False, next_fn = 0, next_obs = 0, observers = (\<lambda>_. None), trace = []\<rparr>"

subsection \<open>The environment: console, state setters, MutationObserver\<close>

definition emit :: "'v action \<Rightarrow> 'v hook \<Rightarrow> 'v hook" where
  "emit a s = s\<lparr>trace := trace s @ [a]\<rparr>"

definition setObserver :: "nat \<Rightarrow> 'v hook \<Rightarrow> 'v hook" where
  "setObserver obs s = s\<lparr>st_observer := Some obs\<rparr>"

text \<open>
  The setter of a \<^verbatim>\<open>useState\<close> cell stores its argument, unless the argument is a
  function: then it stores what the function returns for the stored value. The runtime
  applies the queued arguments in the order of the calls before the next render reads the
  cell, which is what applying each at its call gives. \<^verbatim>\<open>setObserver\<close> is only ever
  given a \<^verbatim>\<open>MutationObserver\<close> object, which is not a function.
\<close>

fun basicStateReducer :: "'v option \<Rightarrow> 'v result \<Rightarrow> 'v option" where
  "basicStateReducer state (Value v) = Some v"
| "basicStateReducer state (Updater f) = f state"

definition setValue :: "'v result \<Rightarrow> 'v hook \<Rightarrow> 'v hook" where
  "setValue r s = s\<lparr>st_value := basicStateReducer (st_value s) r\<rparr>"

definition new_MutationObserver :: "'v closure \<Rightarrow> 'v hook \<Rightarrow> nat \<times> 'v hook" where
  "new_MutationObserver cb s =
     (next_obs s,
      emit (NewObserver (next_obs s))
        (s\<lparr>next_obs := Suc (next_obs s),
           observers := (observers s)(next_obs s \<mapsto> \<lparr>mo_callback = cb, mo_nodes = []\<rparr>)\<rparr>))"

text \<open>
  \<^verbatim>\<open>observer.observe(target, options)\<close> is the browser's. Whether it throws for a target
  and a configuration is a parameter of the model, \<open>throws\<close>: \<open>Some e\<close> when the call
  throws \<open>e\<close>, and then nothing is registered. \<open>Inl\<close> is the throw, with the
  exception and the state it leaves. A successful call puts the node with its options in
  the place of an earlier registration of the same node; \<^verbatim>\<open>disconnect\<close> removes all.
\<close>

definition mo_observe ::
  "(Element \<Rightarrow> MutationObserverOptions \<Rightarrow> exn option) \<Rightarrow> nat \<Rightarrow> Element \<Rightarrow>
   MutationObserverOptions \<Rightarrow> 'v hook \<Rightarrow> (exn \<times> 'v hook) + 'v hook" where
  "mo_observe throws obs target options s =
     (case throws target options of
        Some e \<Rightarrow> Inl (e, emit (Observe obs target options) s)
      | None \<Rightarrow>
          Inr (emit (Observe obs target options)
            (s\<lparr>observers :=
                 (case observers s obs of
                    None \<Rightarrow> observers s
                  | Some mo \<Rightarrow>
                      (observers s)(obs \<mapsto>
                        mo\<lparr>mo_nodes :=
                             (target, options) # filter (\<lambda>n. fst n \<noteq> target) (mo_nodes mo)\<rparr>))\<rparr>)))"

definition mo_disconnect :: "nat \<Rightarrow> 'v hook \<Rightarrow> 'v hook" where
  "mo_disconnect obs s =
     emit (Disconnect obs)
       (s\<lparr>observers :=
            (case observers s obs of
               None \<Rightarrow> observers s
             | Some mo \<Rightarrow> (observers s)(obs \<mapsto> mo\<lparr>mo_nodes := []\<rparr>))\<rparr>)"

subsection \<open>The hook\<close>

text \<open>Lines 75-86.\<close>

definition handleChanges :: "'v closure \<Rightarrow> MutationRecord list \<Rightarrow> 'v hook \<Rightarrow> 'v hook" where
  "handleChanges c mutations s =
     (case cl_observer c of
        None \<Rightarrow> s
      | Some observer \<Rightarrow>
          (case cl_callback c of
             Function callback \<Rightarrow>
               (case callback mutations observer of
                  None \<Rightarrow> emit (CallbackInvoked mutations observer None) s
                | Some result \<Rightarrow>
                    setValue result (emit (CallbackInvoked mutations observer (Some result)) s))
           | _ \<Rightarrow> emit (ConsoleWarn ''useMutationObserver: callback is not a function'') s))"

text \<open>Lines 88-91, the body of the first effect.\<close>

definition creationEffect :: "'v closure \<Rightarrow> 'v hook \<Rightarrow> 'v hook" where
  "creationEffect hc s =
     (case new_MutationObserver hc s of (obs, s1) \<Rightarrow> setObserver obs s1)"

text \<open>
  Lines 93-106, the body of the second effect. The second component of the result is the
  cleanup it returns: the observer to disconnect, or \<open>None\<close> for the early \<^verbatim>\<open>return\<close>.
\<close>

definition observeEffect ::
  "(Element \<Rightarrow> MutationObserverOptions \<Rightarrow> exn option) \<Rightarrow> nat option \<Rightarrow> Element option \<Rightarrow>
   MutationObserverOptions \<Rightarrow> 'v hook \<Rightarrow> 'v hook \<times> nat option" where
  "observeEffect throws observer target options s =
     (case observer of
        None \<Rightarrow> (s, None)
      | Some obs \<Rightarrow>
          (case target of
             None \<Rightarrow> (s, None)
           | Some t \<Rightarrow>
               (case mo_observe throws obs t options s of
                  Inr s1 \<Rightarrow> (s1, Some obs)
                | Inl (error, s1) \<Rightarrow> (emit (ConsoleError error) s1, Some obs))))"

text \<open>Lines 101-105, run by the effect runtime when the second effect is torn down.\<close>

definition run_cleanup :: "'v hook \<Rightarrow> 'v hook" where
  "run_cleanup s =
     (case cleanup2 s of
        None \<Rightarrow> s
      | Some obs \<Rightarrow> (mo_disconnect obs s)\<lparr>cleanup2 := None\<rparr>)"

text \<open>A dependency array differs from the previous one, or there is no previous one.\<close>

definition deps_changed :: "'d option \<Rightarrow> 'd \<Rightarrow> bool" where
  "deps_changed prev d = (case prev of None \<Rightarrow> True | Some p \<Rightarrow> p \<noteq> d)"

text \<open>Line 69: the default parameter \<^verbatim>\<open>options = defaultMutationObserverOptions\<close>.\<close>

definition options_param :: "MutationObserverOptions option \<Rightarrow> MutationObserverOptions" where
  "options_param options_arg =
     (case options_arg of None \<Rightarrow> defaultMutationObserverOptions | Some opt \<Rightarrow> opt)"

text \<open>
  One render of the hook followed by the commit of its effects (lines 66-109). The result is
  the returned pair \<^verbatim>\<open>[value, observer]\<close>, read from the cells at the render, and the
  state after the commit. \<open>hc\<close> is the closure \<^verbatim>\<open>handleChanges\<close> of this render and
  \<open>next_fn s\<close> its reference, \<open>d1\<close> and \<open>d2\<close> are the two dependency arrays. The
  effect runtime compares each array with the one of the previous commit and runs, for the
  effects whose array changed, first the cleanups the previous commit left and then the
  effect bodies in the order of their declaration. \<^verbatim>\<open>setObserver\<close> writes the cell that
  the next render reads.
\<close>

definition useMutationObserver ::
  "(Element \<Rightarrow> MutationObserverOptions \<Rightarrow> exn option) \<Rightarrow> Element option \<Rightarrow> 'v callback_arg \<Rightarrow>
   MutationObserverOptions option \<Rightarrow> 'v hook \<Rightarrow> ('v option \<times> nat option) \<times> 'v hook" where
  "useMutationObserver throws target callback options_arg s =
     (let options = options_param options_arg;
          observer = st_observer s;
          hc = \<lparr>cl_observer = observer, cl_callback = callback\<rparr>;
          d1 = (next_fn s, obj_id options);
          d2 = (observer, target, obj_id options);
          run1 = deps_changed (deps1 s) d1;
          run2 = deps_changed (deps2 s) d2;
          s0 = s\<lparr>next_fn := Suc (next_fn s), deps1 := Some d1, deps2 := Some d2\<rparr>;
          s1 = (if run2 then run_cleanup s0 else s0);
          s2 = (if run1 then creationEffect hc s1 else s1);
          s3 = (if run2
                then (case observeEffect throws observer target options s2 of
                        (s', c) \<Rightarrow> s'\<lparr>cleanup2 := c\<rparr>)
                else s2)
      in ((st_value s, observer), s3))"

subsection \<open>Events of one instance\<close>

text \<open>
  The browser delivers a batch to an observer only while the observer is registered on
  some node; an observer that was never registered or has been disconnected gets none.
  The events of an instance are its renders (with the arguments of the render), the
  batches the browser delivers, and the discard, which runs the pending cleanup. A
  discarded instance is not rendered again.
\<close>

definition deliver :: "nat \<Rightarrow> MutationRecord list \<Rightarrow> 'v hook \<Rightarrow> 'v hook" where
  "deliver h mutations s =
     (case observers s h of
        None \<Rightarrow> s
      | Some mo \<Rightarrow> if mo_nodes mo = [] then s else handleChanges (mo_callback mo) mutations s)"

datatype 'v event =
  Render "Element option" "'v callback_arg" "MutationObserverOptions option"
  | Notify nat "MutationRecord list"
  | Unmount

fun step ::
  "(Element \<Rightarrow> MutationObserverOptions \<Rightarrow> exn option) \<Rightarrow> 'v hook \<Rightarrow> 'v event \<Rightarrow> 'v hook" where
  "step throws s (Render target callback options_arg) =
     (if unmounted s then s else snd (useMutationObserver throws target callback options_arg s))"
| "step throws s (Notify h mutations) = deliver h mutations s"
| "step throws s Unmount =
     (if unmounted s then s else (run_cleanup s)\<lparr>unmounted := True\<rparr>)"

definition run ::
  "(Element \<Rightarrow> MutationObserverOptions \<Rightarrow> exn option) \<Rightarrow> 'v hook \<Rightarrow> 'v event list \<Rightarrow> 'v hook" where
  "run throws s es = foldl (step throws) s es"

subsection \<open>Notions used in the statements\<close>

text \<open>An observer is registered while the browser holds at least one node for it.\<close>

definition observing :: "'v hook \<Rightarrow> nat \<Rightarrow> bool" where
  "observing s h = (case observers s h of None \<Rightarrow> False | Some mo \<Rightarrow> mo_nodes mo \<noteq> [])"

definition closure_of :: "'v hook \<Rightarrow> nat \<Rightarrow> 'v closure option" where
  "closure_of s h = map_option mo_callback (observers s h)"

text \<open>What a step added to the trace.\<close>

definition new_events :: "'v hook \<Rightarrow> 'v hook \<Rightarrow> 'v action list" where
  "new_events s s' = drop (length (trace s)) (trace s')"

text \<open>
  The observers constructed and the observers disconnected, in order, and the defined
  results of the callback;
  \<open>stored\<close> is what the setter leaves in the value cell after a list of results.
\<close>

definition new_handle :: "'v action \<Rightarrow> nat list" where
  "new_handle a = (case a of NewObserver h \<Rightarrow> [h] | _ \<Rightarrow> [])"

definition created :: "'v action list \<Rightarrow> nat list" where
  "created tr = concat (map new_handle tr)"

definition old_handle :: "'v action \<Rightarrow> nat list" where
  "old_handle a = (case a of Disconnect h \<Rightarrow> [h] | _ \<Rightarrow> [])"

definition disconnected :: "'v action list \<Rightarrow> nat list" where
  "disconnected tr = concat (map old_handle tr)"

definition defined_result :: "'v action \<Rightarrow> 'v result list" where
  "defined_result a = (case a of CallbackInvoked m h (Some r) \<Rightarrow> [r] | _ \<Rightarrow> [])"

definition defined_results :: "'v action list \<Rightarrow> 'v result list" where
  "defined_results tr = concat (map defined_result tr)"

definition stored :: "'v result list \<Rightarrow> 'v option" where
  "stored rs = foldl basicStateReducer None rs"

definition last_option :: "'a list \<Rightarrow> 'a option" where
  "last_option xs = (if xs = [] then None else Some (last xs))"

text \<open>
  Live handles along a trace. A handle becomes live at the action picked by \<open>opens\<close>
  and stops being live at its \<^verbatim>\<open>disconnect\<close>. With \<open>handle_created\<close> a handle is live
  from its construction; with \<open>handle_registered\<close> from the call of \<^verbatim>\<open>observe\<close> on it.
  \<open>never_two\<close> holds when no prefix of the trace leaves more than one handle live.
\<close>

definition handle_created :: "'v action \<Rightarrow> nat option" where
  "handle_created a = (case a of NewObserver h \<Rightarrow> Some h | _ \<Rightarrow> None)"

definition handle_registered :: "'v action \<Rightarrow> nat option" where
  "handle_registered a = (case a of Observe h t opts \<Rightarrow> Some h | _ \<Rightarrow> None)"

definition live_step :: "('v action \<Rightarrow> nat option) \<Rightarrow> nat list \<Rightarrow> 'v action \<Rightarrow> nat list" where
  "live_step opens hs a =
     (case a of
        Disconnect h \<Rightarrow> removeAll h hs
      | _ \<Rightarrow> (case opens a of
                None \<Rightarrow> hs
              | Some h \<Rightarrow> if h \<in> set hs then hs else hs @ [h]))"

definition live_after :: "('v action \<Rightarrow> nat option) \<Rightarrow> nat list \<Rightarrow> 'v action list \<Rightarrow> nat list" where
  "live_after opens hs tr = foldl (live_step opens) hs tr"

fun never_two :: "('v action \<Rightarrow> nat option) \<Rightarrow> nat list \<Rightarrow> 'v action list \<Rightarrow> bool" where
  "never_two opens hs [] = (length hs \<le> 1)"
| "never_two opens hs (a # tr) = (length hs \<le> 1 \<and> never_two opens (live_step opens hs a) tr)"

text \<open>The parts of the trace of one commit, and the cleanup the second effect returns.\<close>

definition cleanup_events :: "nat option \<Rightarrow> 'v action list" where
  "cleanup_events c = (case c of None \<Rightarrow> [] | Some h \<Rightarrow> [Disconnect h])"

definition observe_events ::
  "(Element \<Rightarrow> MutationObserverOptions \<Rightarrow> exn option) \<Rightarrow> nat option \<Rightarrow> Element option \<Rightarrow>
   MutationObserverOptions \<Rightarrow> 'v action list" where
  "observe_events throws observer target options =
     (case observer of
        None \<Rightarrow> []
      | Some obs \<Rightarrow>
          (case target of
             None \<Rightarrow> []
           | Some t \<Rightarrow>
               Observe obs t options #
                 (case throws t options of None \<Rightarrow> [] | Some e \<Rightarrow> [ConsoleError e])))"

definition observe_cleanup :: "nat option \<Rightarrow> Element option \<Rightarrow> nat option" where
  "observe_cleanup observer target = (case target of None \<Rightarrow> None | Some t \<Rightarrow> observer)"

definition pending :: "'v hook \<Rightarrow> nat list" where
  "pending s = (case cleanup2 s of None \<Rightarrow> [] | Some h \<Rightarrow> [h])"

text \<open>
  Line 77, \<^verbatim>\<open>callback && typeof callback === 'function'\<close>, and the events of an instance
  that is never given such a callback.
\<close>

definition callable :: "'v callback_arg \<Rightarrow> bool" where
  "callable cb = (case cb of Function f \<Rightarrow> True | _ \<Rightarrow> False)"

definition no_transform :: "'v event \<Rightarrow> bool" where
  "no_transform e = (case e of Render t cb oa \<Rightarrow> \<not> callable cb | _ \<Rightarrow> True)"

subsection \<open>Invariants of the reachable states\<close>

text \<open>Registered observers are exactly what the pending cleanup disconnects.\<close>

definition reg_inv :: "'v hook \<Rightarrow> bool" where
  "reg_inv s = (\<forall>h. observing s h \<longrightarrow> cleanup2 s = Some h)"

text \<open>The cells hold what the trace says they hold.\<close>

definition cells_inv :: "'v hook \<Rightarrow> bool" where
  "cells_inv s =
     (st_value s = stored (defined_results (trace s)) \<and>
      st_observer s = last_option (created (trace s)))"

text \<open>
  References are handed out in order: the \<^verbatim>\<open>observer\<close> cell holds the newest observer,
  the pending cleanup and every disconnected observer are older, the function object in
  the stored dependency array is older than the next one, and the first observer closes
  over \<^verbatim>\<open>null\<close>.
\<close>

definition alloc_inv :: "'v hook \<Rightarrow> bool" where
  "alloc_inv s =
     ((case st_observer s of None \<Rightarrow> next_obs s = 0 | Some c \<Rightarrow> next_obs s = Suc c) \<and>
      (\<forall>h. cleanup2 s = Some h \<longrightarrow> Suc h < next_obs s) \<and>
      (\<forall>h. Disconnect h \<in> set (trace s) \<longrightarrow> Suc h < next_obs s) \<and>
      (\<forall>f r. deps1 s = Some (f, r) \<longrightarrow> f < next_fn s) \<and>
      (\<forall>ob t r. deps2 s = Some (ob, t, r) \<longrightarrow> ob \<noteq> st_observer s) \<and>
      (\<forall>h. (closure_of s h \<noteq> None) = (h < next_obs s)) \<and>
      (\<forall>c. closure_of s 0 = Some c \<longrightarrow> cl_observer c = None) \<and>
      created (trace s) = [0..<next_obs s])"

text \<open>
  The handles on which \<^verbatim>\<open>observe\<close> was called and \<^verbatim>\<open>disconnect\<close> was not are the one
  of the pending cleanup, and there were never two of them.
\<close>

definition live_inv :: "'v hook \<Rightarrow> bool" where
  "live_inv s =
     (live_after handle_registered [] (trace s) = pending s \<and>
      never_two handle_registered [] (trace s))"

text \<open>The handle the pending cleanup will disconnect has not been disconnected yet.\<close>

definition fresh_inv :: "'v hook \<Rightarrow> bool" where
  "fresh_inv s = (\<forall>h. cleanup2 s = Some h \<longrightarrow> Disconnect h \<notin> set (trace s))"

text \<open>Without a callable callback the value stays \<^verbatim>\<open>undefined\<close>.\<close>

definition nt_inv :: "'v hook \<Rightarrow> bool" where
  "nt_inv s =
     (st_value s = None \<and> (\<forall>h c. closure_of s h = Some c \<longrightarrow> \<not> callable (cl_callback c)))"

subsection \<open>Inputs for the concrete runs\<close>

definition never_throws :: "Element \<Rightarrow> MutationObserverOptions \<Rightarrow> exn option" where
  "never_throws t opts = None"

definition throws_for :: "Element \<Rightarrow> Element \<Rightarrow> MutationObserverOptions \<Rightarrow> exn option" where
  "throws_for bad t opts = (if t = bad then Some TypeError else None)"

definition optsA :: MutationObserverOptions where
  "optsA = \<lparr>obj_id = 1, attributes = Some True, attributeOldValue = None, attributeFilter = None,
      characterData = None, characterDataOldValue = None, childList = None, subtree = None,
      extra = []\<rparr>"

definition optsB :: MutationObserverOptions where
  "optsB = \<lparr>obj_id = 2, attributes = Some True, attributeOldValue = None, attributeFilter = None,
      characterData = None, characterDataOldValue = None, childList = Some True, subtree = None,
      extra = []\<rparr>"

section \<open>Facts about the model\<close>

subsection \<open>What each operation does to each field\<close>

lemma emit_fields [simp]:
  "st_observer (emit a s) = st_observer s" "st_value (emit a s) = st_value s"
  "deps1 (emit a s) = deps1 s" "deps2 (emit a s) = deps2 s" "cleanup2 (emit a s) = cleanup2 s"
  "unmounted (emit a s) = unmounted s" "next_fn (emit a s) = next_fn s"
  "next_obs (emit a s) = next_obs s" "observers (emit a s) = observers s"
  "trace (emit a s) = trace s @ [a]"
  by (simp_all add: emit_def)

lemma setObserver_fields [simp]:
  "st_observer (setObserver h s) = Some h" "st_value (setObserver h s) = st_value s"
  "deps1 (setObserver h s) = deps1 s" "deps2 (setObserver h s) = deps2 s"
  "cleanup2 (setObserver h s) = cleanup2 s" "unmounted (setObserver h s) = unmounted s"
  "next_fn (setObserver h s) = next_fn s" "next_obs (setObserver h s) = next_obs s"
  "observers (setObserver h s) = observers s" "trace (setObserver h s) = trace s"
  by (simp_all add: setObserver_def)

lemma setValue_fields [simp]:
  "st_observer (setValue r s) = st_observer s"
  "st_value (setValue r s) = basicStateReducer (st_value s) r"
  "deps1 (setValue r s) = deps1 s" "deps2 (setValue r s) = deps2 s"
  "cleanup2 (setValue r s) = cleanup2 s" "unmounted (setValue r s) = unmounted s"
  "next_fn (setValue r s) = next_fn s" "next_obs (setValue r s) = next_obs s"
  "observers (setValue r s) = observers s" "trace (setValue r s) = trace s"
  by (simp_all add: setValue_def)

lemma mo_disconnect_fields [simp]:
  "st_observer (mo_disconnect h s) = st_observer s" "st_value (mo_disconnect h s) = st_value s"
  "deps1 (mo_disconnect h s) = deps1 s" "deps2 (mo_disconnect h s) = deps2 s"
  "cleanup2 (mo_disconnect h s) = cleanup2 s" "unmounted (mo_disconnect h s) = unmounted s"
  "next_fn (mo_disconnect h s) = next_fn s" "next_obs (mo_disconnect h s) = next_obs s"
  "trace (mo_disconnect h s) = trace s @ [Disconnect h]"
  by (simp_all add: mo_disconnect_def)

lemma observing_emit [simp]: "observing (emit a s) h = observing s h"
  by (simp add: observing_def)

lemma observing_setObserver [simp]: "observing (setObserver c s) h = observing s h"
  by (simp add: observing_def)

lemma observing_setValue [simp]: "observing (setValue r s) h = observing s h"
  by (simp add: observing_def)

lemma observing_mo_disconnect [simp]:
  "observing (mo_disconnect c s) h = (observing s h \<and> h \<noteq> c)"
  by (auto simp: observing_def mo_disconnect_def split: option.splits)

lemma creationEffect_fields [simp]:
  "st_observer (creationEffect hc s) = Some (next_obs s)"
  "st_value (creationEffect hc s) = st_value s"
  "deps1 (creationEffect hc s) = deps1 s" "deps2 (creationEffect hc s) = deps2 s"
  "cleanup2 (creationEffect hc s) = cleanup2 s" "unmounted (creationEffect hc s) = unmounted s"
  "next_fn (creationEffect hc s) = next_fn s" "next_obs (creationEffect hc s) = Suc (next_obs s)"
  "observers (creationEffect hc s) =
     (observers s)(next_obs s \<mapsto> \<lparr>mo_callback = hc, mo_nodes = []\<rparr>)"
  "trace (creationEffect hc s) = trace s @ [NewObserver (next_obs s)]"
  by (simp_all add: creationEffect_def new_MutationObserver_def)

lemma observing_creationEffect [simp]:
  "observing (creationEffect hc s) h = (observing s h \<and> h \<noteq> next_obs s)"
  by (auto simp: observing_def)

lemma cleanup_events_simps [simp]:
  "cleanup_events None = []" "cleanup_events (Some h) = [Disconnect h]"
  by (simp_all add: cleanup_events_def)

lemma run_cleanup_fields [simp]:
  "st_observer (run_cleanup s) = st_observer s" "st_value (run_cleanup s) = st_value s"
  "deps1 (run_cleanup s) = deps1 s" "deps2 (run_cleanup s) = deps2 s"
  "cleanup2 (run_cleanup s) = None" "unmounted (run_cleanup s) = unmounted s"
  "next_fn (run_cleanup s) = next_fn s" "next_obs (run_cleanup s) = next_obs s"
  "trace (run_cleanup s) =
     trace s @ cleanup_events (cleanup2 s)"
  by (simp_all add: run_cleanup_def split: option.splits)

lemma observing_run_cleanup [simp]:
  "observing (run_cleanup s) h = (observing s h \<and> cleanup2 s \<noteq> Some h)"
  by (auto simp: run_cleanup_def observing_def mo_disconnect_def split: option.splits)

lemma observeEffect_fields [simp]:
  "st_observer (fst (observeEffect throws ob t opts s)) = st_observer s"
  "st_value (fst (observeEffect throws ob t opts s)) = st_value s"
  "deps1 (fst (observeEffect throws ob t opts s)) = deps1 s"
  "deps2 (fst (observeEffect throws ob t opts s)) = deps2 s"
  "cleanup2 (fst (observeEffect throws ob t opts s)) = cleanup2 s"
  "unmounted (fst (observeEffect throws ob t opts s)) = unmounted s"
  "next_fn (fst (observeEffect throws ob t opts s)) = next_fn s"
  "next_obs (fst (observeEffect throws ob t opts s)) = next_obs s"
  "trace (fst (observeEffect throws ob t opts s)) = trace s @ observe_events throws ob t opts"
  "snd (observeEffect throws ob t opts s) = observe_cleanup ob t"
  by (simp_all add: observeEffect_def mo_observe_def observe_events_def observe_cleanup_def
      split: option.splits)

lemma observing_observeEffect:
  "observing (fst (observeEffect throws ob t opts s)) h =
     (if ob = Some h \<and> t \<noteq> None \<and> throws (the t) opts = None \<and> observers s h \<noteq> None
      then True else observing s h)"
  by (auto simp: observeEffect_def mo_observe_def observing_def split: option.splits)

subsection \<open>One render and its commit\<close>

lemma render_output:
  "fst (useMutationObserver throws t cb oa s) = (st_value s, st_observer s)"
  by (simp add: useMutationObserver_def Let_def)

lemma render_fields:
  "st_value (snd (useMutationObserver throws t cb oa s)) = st_value s"
  "unmounted (snd (useMutationObserver throws t cb oa s)) = unmounted s"
  "next_fn (snd (useMutationObserver throws t cb oa s)) = Suc (next_fn s)"
  "deps1 (snd (useMutationObserver throws t cb oa s)) = Some (next_fn s, obj_id (options_param oa))"
  "deps2 (snd (useMutationObserver throws t cb oa s)) =
     Some (st_observer s, t, obj_id (options_param oa))"
  by (simp_all add: useMutationObserver_def Let_def split_beta)

lemma render_observer:
  "st_observer (snd (useMutationObserver throws t cb oa s)) =
     (if deps_changed (deps1 s) (next_fn s, obj_id (options_param oa))
      then Some (next_obs s) else st_observer s)"
  "next_obs (snd (useMutationObserver throws t cb oa s)) =
     (if deps_changed (deps1 s) (next_fn s, obj_id (options_param oa))
      then Suc (next_obs s) else next_obs s)"
  by (simp_all add: useMutationObserver_def Let_def split_beta)

lemma render_cleanup2:
  "cleanup2 (snd (useMutationObserver throws t cb oa s)) =
     (if deps_changed (deps2 s) (st_observer s, t, obj_id (options_param oa))
      then observe_cleanup (st_observer s) t else cleanup2 s)"
  by (simp add: useMutationObserver_def Let_def split_beta)

lemma render_trace:
  "trace (snd (useMutationObserver throws t cb oa s)) =
     trace s
     @ (if deps_changed (deps2 s) (st_observer s, t, obj_id (options_param oa))
        then cleanup_events (cleanup2 s) else [])
     @ (if deps_changed (deps1 s) (next_fn s, obj_id (options_param oa))
        then [NewObserver (next_obs s)] else [])
     @ (if deps_changed (deps2 s) (st_observer s, t, obj_id (options_param oa))
        then observe_events throws (st_observer s) t (options_param oa) else [])"
  by (simp add: useMutationObserver_def Let_def split_beta)

subsection \<open>Registered observers and the pending cleanup\<close>

lemma reg_inv_init: "reg_inv init"
  by (simp add: reg_inv_def observing_def init_def)

lemma observing_cleanup2_update [simp]: "observing (s\<lparr>cleanup2 := c\<rparr>) h = observing s h"
  by (simp add: observing_def)

lemma observing_unmounted_update [simp]: "observing (s\<lparr>unmounted := c\<rparr>) h = observing s h"
  by (simp add: observing_def)

lemma observing_deps_update [simp]:
  "observing (s\<lparr>next_fn := n, deps1 := a, deps2 := b\<rparr>) h = observing s h"
  by (simp add: observing_def)

lemma reg_inv_render:
  assumes "reg_inv s"
  shows "reg_inv (snd (useMutationObserver throws t cb oa s))"
  using assms
  by (auto simp: reg_inv_def useMutationObserver_def Let_def split_beta observing_observeEffect
      observe_cleanup_def split: if_splits)

lemma handleChanges_fields [simp]:
  "st_observer (handleChanges c m s) = st_observer s"
  "deps1 (handleChanges c m s) = deps1 s" "deps2 (handleChanges c m s) = deps2 s"
  "cleanup2 (handleChanges c m s) = cleanup2 s" "unmounted (handleChanges c m s) = unmounted s"
  "next_fn (handleChanges c m s) = next_fn s" "next_obs (handleChanges c m s) = next_obs s"
  "observers (handleChanges c m s) = observers s"
  by (simp_all add: handleChanges_def split: option.splits callback_arg.splits)

lemma deliver_fields [simp]:
  "st_observer (deliver h m s) = st_observer s"
  "deps1 (deliver h m s) = deps1 s" "deps2 (deliver h m s) = deps2 s"
  "cleanup2 (deliver h m s) = cleanup2 s" "unmounted (deliver h m s) = unmounted s"
  "next_fn (deliver h m s) = next_fn s" "next_obs (deliver h m s) = next_obs s"
  "observers (deliver h m s) = observers s"
  by (simp_all add: deliver_def split: option.splits)

lemma observing_deliver [simp]: "observing (deliver h m s) h' = observing s h'"
  by (simp add: observing_def)

lemma reg_inv_step:
  assumes "reg_inv s"
  shows "reg_inv (step throws s e)"
proof (cases e)
  case (Render t cb oa)
  then show ?thesis using assms reg_inv_render [OF assms] by simp
next
  case (Notify h m)
  then show ?thesis using assms by (simp add: reg_inv_def)
next
  case Unmount
  then show ?thesis using assms by (auto simp: reg_inv_def)
qed

lemma run_snoc: "run throws s (es @ [e]) = step throws (run throws s es) e"
  by (simp add: run_def)

lemma reg_inv_run: "reg_inv (run throws init es)"
proof (induction es rule: rev_induct)
  case Nil
  show ?case by (simp add: run_def reg_inv_init)
next
  case (snoc e es)
  then show ?case by (simp add: run_snoc reg_inv_step)
qed

subsection \<open>Reading the trace\<close>

lemma created_append [simp]: "created (xs @ ys) = created xs @ created ys"
  by (simp add: created_def)

lemma created_simps [simp]:
  "created [] = []" "created (NewObserver h # tr) = h # created tr"
  "created (Observe h t opts # tr) = created tr" "created (Disconnect h # tr) = created tr"
  "created (ConsoleWarn w # tr) = created tr" "created (ConsoleError e # tr) = created tr"
  "created (CallbackInvoked m h r # tr) = created tr"
  by (simp_all add: created_def new_handle_def)

lemma defined_results_append [simp]:
  "defined_results (xs @ ys) = defined_results xs @ defined_results ys"
  by (simp add: defined_results_def)

lemma defined_results_simps [simp]:
  "defined_results [] = []" "defined_results (NewObserver h # tr) = defined_results tr"
  "defined_results (Observe h t opts # tr) = defined_results tr"
  "defined_results (Disconnect h # tr) = defined_results tr"
  "defined_results (ConsoleWarn w # tr) = defined_results tr"
  "defined_results (ConsoleError e # tr) = defined_results tr"
  "defined_results (CallbackInvoked m h None # tr) = defined_results tr"
  "defined_results (CallbackInvoked m h (Some r) # tr) = r # defined_results tr"
  by (simp_all add: defined_results_def defined_result_def)

lemma created_cleanup_events [simp]: "created (cleanup_events c) = []"
  by (cases c) simp_all

lemma defined_results_cleanup_events [simp]: "defined_results (cleanup_events c) = []"
  by (cases c) simp_all

lemma set_cleanup_events [simp]: "(a \<in> set (cleanup_events c)) = (\<exists>h. c = Some h \<and> a = Disconnect h)"
  by (cases c) auto

lemma created_observe_events [simp]: "created (observe_events throws ob t opts) = []"
  by (simp add: observe_events_def split: option.splits)

lemma defined_results_observe_events [simp]:
  "defined_results (observe_events throws ob t opts) = []"
  by (simp add: observe_events_def split: option.splits)

lemma closure_of_simps [simp]:
  "closure_of (emit a s) h = closure_of s h"
  "closure_of (setObserver k s) h = closure_of s h"
  "closure_of (setValue r s) h = closure_of s h"
  "closure_of (s\<lparr>cleanup2 := x\<rparr>) h = closure_of s h"
  "closure_of (s\<lparr>unmounted := b\<rparr>) h = closure_of s h"
  "closure_of (s\<lparr>next_fn := n, deps1 := d, deps2 := d'\<rparr>) h = closure_of s h"
  "closure_of (handleChanges c m s) h = closure_of s h"
  "closure_of (deliver k m s) h = closure_of s h"
  by (simp_all add: closure_of_def)

lemma closure_of_mo_disconnect [simp]: "closure_of (mo_disconnect c s) h = closure_of s h"
  by (auto simp: closure_of_def mo_disconnect_def split: option.splits)

lemma closure_of_run_cleanup [simp]: "closure_of (run_cleanup s) h = closure_of s h"
  by (simp add: run_cleanup_def split: option.splits)

lemma closure_of_creationEffect [simp]:
  "closure_of (creationEffect hc s) h = (if h = next_obs s then Some hc else closure_of s h)"
  by (simp add: closure_of_def)

lemma closure_of_observeEffect [simp]:
  "closure_of (fst (observeEffect throws ob t opts s)) h = closure_of s h"
  by (auto simp: closure_of_def observeEffect_def mo_observe_def split: option.splits)

lemma render_closure_of:
  "closure_of (snd (useMutationObserver throws t cb oa s)) h =
     (if deps_changed (deps1 s) (next_fn s, obj_id (options_param oa)) \<and> h = next_obs s
      then Some \<lparr>cl_observer = st_observer s, cl_callback = cb\<rparr> else closure_of s h)"
  by (simp add: useMutationObserver_def Let_def split_beta)

lemma handleChanges_trace:
  "trace (handleChanges c m s) =
     trace s @
     (case cl_observer c of
        None \<Rightarrow> []
      | Some ob \<Rightarrow>
          (case cl_callback c of
             Function f \<Rightarrow> [CallbackInvoked m ob (f m ob)]
           | _ \<Rightarrow> [ConsoleWarn ''useMutationObserver: callback is not a function'']))"
  by (simp add: handleChanges_def split: option.splits callback_arg.splits)

lemma handleChanges_value:
  "st_value (handleChanges c m s) =
     (case cl_observer c of
        None \<Rightarrow> st_value s
      | Some ob \<Rightarrow>
          (case cl_callback c of
             Function f \<Rightarrow>
               (case f m ob of None \<Rightarrow> st_value s | Some r \<Rightarrow> basicStateReducer (st_value s) r)
           | _ \<Rightarrow> st_value s))"
  by (simp add: handleChanges_def split: option.splits callback_arg.splits)

subsection \<open>The cells and the trace\<close>

lemma stored_simps [simp]:
  "stored [] = None" "stored (rs @ [r]) = basicStateReducer (stored rs) r"
  by (simp_all add: stored_def)

lemma cells_inv_init: "cells_inv init"
  by (simp add: cells_inv_def init_def last_option_def)

lemma last_option_snoc [simp]: "last_option (xs @ [x]) = Some x"
  by (simp add: last_option_def)

lemma cells_inv_handleChanges:
  assumes "cells_inv s"
  shows "cells_inv (handleChanges c m s)"
  using assms
  by (auto simp: cells_inv_def handleChanges_trace handleChanges_value
      split: option.splits callback_arg.splits)

lemma cells_inv_step:
  assumes "cells_inv s"
  shows "cells_inv (step throws s e)"
proof (cases e)
  case (Render t cb oa)
  then show ?thesis using assms
    by (auto simp: cells_inv_def render_fields render_observer render_trace split: option.splits)
next
  case (Notify h m)
  then show ?thesis using assms cells_inv_handleChanges [OF assms]
    by (simp add: deliver_def split: option.splits)
next
  case Unmount
  then show ?thesis using assms by (auto simp: cells_inv_def split: option.splits)
qed

lemma cells_inv_run: "cells_inv (run throws init es)"
proof (induction es rule: rev_induct)
  case Nil
  show ?case by (simp add: run_def cells_inv_init)
next
  case (snoc e es)
  then show ?case by (simp add: run_snoc cells_inv_step)
qed

subsection \<open>Allocation of references\<close>

lemma alloc_inv_init: "alloc_inv init"
  by (simp add: alloc_inv_def init_def closure_of_def)

lemma alloc_runs_creation:
  assumes "alloc_inv s"
  shows "deps_changed (deps1 s) (next_fn s, r)"
  using assms by (auto simp: alloc_inv_def deps_changed_def split: option.splits)

lemma alloc_runs_observe:
  assumes "alloc_inv s"
  shows "deps_changed (deps2 s) (st_observer s, t, r)"
  using assms by (auto simp: alloc_inv_def deps_changed_def split: option.splits)

lemma set_observe_events_Disconnect [simp]:
  "Disconnect h \<notin> set (observe_events throws ob t opts)"
  by (simp add: observe_events_def split: option.splits)

lemma alloc_inv_render:
  assumes "alloc_inv s"
  shows "alloc_inv (snd (useMutationObserver throws t cb oa s))"
  unfolding alloc_inv_def
  using assms
  apply (simp add: render_fields render_observer render_trace render_cleanup2 render_closure_of
      alloc_runs_creation alloc_runs_observe)
  apply (auto simp: alloc_inv_def observe_cleanup_def split: option.splits)
  done

lemma handleChanges_Disconnect [simp]:
  "Disconnect h \<in> set (trace (handleChanges c m s)) = (Disconnect h \<in> set (trace s))"
  by (cases "cl_observer c"; cases "cl_callback c") (simp_all add: handleChanges_trace)

lemma created_handleChanges [simp]: "created (trace (handleChanges c m s)) = created (trace s)"
  by (cases "cl_observer c"; cases "cl_callback c") (simp_all add: handleChanges_trace)

lemma alloc_inv_step:
  assumes "alloc_inv s"
  shows "alloc_inv (step throws s e)"
proof (cases e)
  case (Render t cb oa)
  then show ?thesis using assms alloc_inv_render [OF assms] by simp
next
  case (Notify h m)
  then show ?thesis using assms
    by (auto simp: alloc_inv_def deliver_def split: option.splits)
next
  case Unmount
  then show ?thesis using assms by (auto simp: alloc_inv_def split: option.splits)
qed

lemma alloc_inv_run: "alloc_inv (run throws init es)"
proof (induction es rule: rev_induct)
  case Nil
  show ?case by (simp add: run_def alloc_inv_init)
next
  case (snoc e es)
  then show ?case by (simp add: run_snoc alloc_inv_step)
qed

subsection \<open>Live handles along the trace\<close>

lemma live_after_simps [simp]:
  "live_after opens hs [] = hs"
  "live_after opens hs (a # tr) = live_after opens (live_step opens hs a) tr"
  "live_after opens hs (tr @ tr') = live_after opens (live_after opens hs tr) tr'"
  by (simp_all add: live_after_def)

lemma never_two_append:
  "never_two opens hs (tr @ tr') =
     (never_two opens hs tr \<and> never_two opens (live_after opens hs tr) tr')"
  by (induction tr arbitrary: hs) (auto, (cases tr'; simp)+)

lemma live_step_registered [simp]:
  "live_step handle_registered hs (NewObserver h) = hs"
  "live_step handle_registered hs (Observe h t opts) = (if h \<in> set hs then hs else hs @ [h])"
  "live_step handle_registered hs (Disconnect h) = removeAll h hs"
  "live_step handle_registered hs (ConsoleWarn w) = hs"
  "live_step handle_registered hs (ConsoleError e) = hs"
  "live_step handle_registered hs (CallbackInvoked m h r) = hs"
  by (simp_all add: live_step_def handle_registered_def)

lemma live_inv_init: "live_inv init"
  by (simp add: live_inv_def init_def pending_def)

lemma live_inv_render:
  assumes "live_inv s" and "alloc_inv s"
  shows "live_inv (snd (useMutationObserver throws t cb oa s))"
  using assms
  by (auto simp: live_inv_def pending_def render_trace render_cleanup2 alloc_runs_creation
      alloc_runs_observe never_two_append observe_events_def observe_cleanup_def
      split: option.splits)

lemma live_inv_handleChanges:
  assumes "live_inv s"
  shows "live_inv (handleChanges c m s)"
  using assms
  by (cases "cl_observer c"; cases "cl_callback c")
     (auto simp: live_inv_def pending_def handleChanges_trace never_two_append
      split: option.splits)

lemma live_inv_step:
  assumes "live_inv s" and "alloc_inv s"
  shows "live_inv (step throws s e)"
proof (cases e)
  case (Render t cb oa)
  then show ?thesis using assms live_inv_render [OF assms] by simp
next
  case (Notify h m)
  then show ?thesis using assms(1) live_inv_handleChanges [OF assms(1)]
    by (simp add: deliver_def split: option.splits)
next
  case Unmount
  then show ?thesis using assms(1)
    by (auto simp: live_inv_def pending_def never_two_append split: option.splits)
qed

lemma live_inv_run: "live_inv (run throws init es)"
proof (induction es rule: rev_induct)
  case Nil
  show ?case by (simp add: run_def live_inv_init)
next
  case (snoc e es)
  then show ?case by (simp add: run_snoc live_inv_step alloc_inv_run)
qed

lemma alloc_observer:
  assumes "alloc_inv s" and "st_observer s = Some c"
  shows "next_obs s = Suc c"
  using assms by (simp add: alloc_inv_def)

lemma alloc_cleanup:
  assumes "alloc_inv s" and "cleanup2 s = Some h"
  shows "Suc h < next_obs s"
  using assms by (simp add: alloc_inv_def)

lemma alloc_disconnected:
  assumes "alloc_inv s" and "Disconnect h \<in> set (trace s)"
  shows "Suc h < next_obs s"
  using assms by (simp add: alloc_inv_def)

lemma fresh_inv_render:
  assumes "alloc_inv s"
  shows "fresh_inv (snd (useMutationObserver throws t cb oa s))"
  unfolding fresh_inv_def
proof (intro allI impI)
  fix h
  assume c: "cleanup2 (snd (useMutationObserver throws t cb oa s)) = Some h"
  from c assms have ob: "st_observer s = Some h"
    by (simp add: render_cleanup2 alloc_runs_observe observe_cleanup_def split: option.splits)
  with assms have n: "next_obs s = Suc h" by (rule alloc_observer)
  have d: "Disconnect h \<notin> set (trace s)"
    using alloc_disconnected [OF assms, of h] n by auto
  have k: "cleanup2 s \<noteq> Some h"
    using alloc_cleanup [OF assms, of h] n by auto
  show "Disconnect h \<notin> set (trace (snd (useMutationObserver throws t cb oa s)))"
    using d k assms
    by (cases "cleanup2 s") (simp_all add: render_trace alloc_runs_creation alloc_runs_observe)
qed

lemma fresh_inv_step:
  assumes "fresh_inv s" and "alloc_inv s"
  shows "fresh_inv (step throws s e)"
proof (cases e)
  case (Render t cb oa)
  then show ?thesis using assms fresh_inv_render [OF assms(2)] by simp
next
  case (Notify h m)
  then show ?thesis using assms(1)
    by (auto simp: fresh_inv_def deliver_def split: option.splits)
next
  case Unmount
  then show ?thesis using assms(1) by (auto simp: fresh_inv_def)
qed

lemma fresh_inv_run: "fresh_inv (run throws init es)"
proof (induction es rule: rev_induct)
  case Nil
  show ?case by (simp add: run_def fresh_inv_def init_def)
next
  case (snoc e es)
  then show ?case by (simp add: run_snoc fresh_inv_step alloc_inv_run)
qed

subsection \<open>After the hook is discarded\<close>

lemma step_discarded:
  assumes "unmounted s" and "\<forall>h. \<not> observing s h"
  shows "step throws s e = s"
  using assms by (cases e) (auto simp: deliver_def observing_def split: option.splits)

lemma run_discarded:
  assumes "unmounted s" and "\<forall>h. \<not> observing s h"
  shows "run throws s es = s"
  using assms
  by (induction es rule: rev_induct) (simp_all add: run_def step_discarded)

lemma unmount_nothing_observing:
  assumes "reg_inv s" and "\<not> unmounted s"
  shows "\<not> observing (step throws s Unmount) h"
  using assms by (auto simp: reg_inv_def)

subsection \<open>What a step adds to the trace\<close>

lemma new_events_self [simp]: "new_events s s = []"
  by (simp add: new_events_def)

lemma render_new_events:
  assumes "alloc_inv s"
  shows "new_events s (snd (useMutationObserver throws t cb oa s)) =
     cleanup_events (cleanup2 s) @ [NewObserver (next_obs s)] @
     observe_events throws (st_observer s) t (options_param oa)"
  using assms
  by (simp add: new_events_def render_trace alloc_runs_creation alloc_runs_observe)

lemma render_created:
  "created (new_events s (snd (useMutationObserver throws t cb oa s))) =
     (if deps_changed (deps1 s) (next_fn s, obj_id (options_param oa))
      then [next_obs s] else [])"
  by (simp add: new_events_def render_trace)

lemma deliver_new_events:
  assumes "observers s h = Some mo" and "mo_nodes mo \<noteq> []"
  shows "new_events s (deliver h m s) =
     (case cl_observer (mo_callback mo) of
        None \<Rightarrow> []
      | Some ob \<Rightarrow>
          (case cl_callback (mo_callback mo) of
             Function f \<Rightarrow> [CallbackInvoked m ob (f m ob)]
           | _ \<Rightarrow> [ConsoleWarn ''useMutationObserver: callback is not a function'']))"
  using assms by (simp add: deliver_def new_events_def handleChanges_trace)

lemma disconnected_append [simp]:
  "disconnected (xs @ ys) = disconnected xs @ disconnected ys"
  by (simp add: disconnected_def)

lemma disconnected_simps [simp]:
  "disconnected [] = []" "disconnected (NewObserver h # tr) = disconnected tr"
  "disconnected (Disconnect h # tr) = h # disconnected tr"
  by (simp_all add: disconnected_def old_handle_def)

lemma disconnected_cleanup_events [simp]:
  "disconnected (cleanup_events (cleanup2 s)) = pending s"
  by (cases "cleanup2 s") (simp_all add: pending_def)

lemma disconnected_observe_events [simp]:
  "disconnected (observe_events throws ob t opts) = []"
  by (cases ob; cases t; cases "throws (the t) opts")
     (simp_all add: observe_events_def disconnected_def old_handle_def)

lemma render_new_events_changed:
  assumes "deps_changed (deps1 s) (next_fn s, obj_id (options_param oa))"
    and "deps_changed (deps2 s) (st_observer s, t, obj_id (options_param oa))"
  shows "new_events s (snd (useMutationObserver throws t cb oa s)) =
     cleanup_events (cleanup2 s) @ [NewObserver (next_obs s)] @
     observe_events throws (st_observer s) t (options_param oa)"
  using assms by (simp add: new_events_def render_trace)

lemma created_new_handleChanges: "created (new_events s (handleChanges c m s)) = []"
  by (cases "cl_observer c"; cases "cl_callback c")
     (simp_all add: new_events_def handleChanges_trace)

lemma created_new_deliver: "created (new_events s (deliver h m s)) = []"
  by (simp add: deliver_def created_new_handleChanges split: option.splits)

lemma set_observe_events_Observe [simp]:
  "(Observe h t opts \<in> set (observe_events throws ob tg options)) =
     (ob = Some h \<and> tg = Some t \<and> opts = options)"
  by (cases ob; cases tg; cases "throws (the tg) options") (auto simp: observe_events_def)

lemma render_calls_observe:
  assumes "alloc_inv s" and "st_observer s = Some h"
  shows "Observe h t (options_param oa) \<in>
     set (new_events s (snd (useMutationObserver throws (Some t) cb oa s)))"
  using assms by (simp add: render_new_events)

lemma observeEffect_registers:
  assumes "throws t opts = None" and "closure_of s h \<noteq> None"
  shows "observing (fst (observeEffect throws (Some h) (Some t) opts s)) h"
  using assms by (simp add: observing_observeEffect closure_of_def)

lemma render_registers:
  assumes "alloc_inv s" and "st_observer s = Some h" and "throws t (options_param oa) = None"
  shows "observing (snd (useMutationObserver throws (Some t) cb oa s)) h"
proof -
  from assms(1,2) have n: "next_obs s = Suc h" by (rule alloc_observer)
  with assms(1) have "closure_of s h \<noteq> None" by (simp add: alloc_inv_def)
  with n have "closure_of (creationEffect \<lparr>cl_observer = Some h, cl_callback = cb\<rparr>
      (run_cleanup (s\<lparr>next_fn := Suc (next_fn s),
         deps1 := Some (next_fn s, obj_id (options_param oa)),
         deps2 := Some (Some h, Some t, obj_id (options_param oa))\<rparr>))) h \<noteq> None"
    by simp
  with assms(3) have "observing (fst (observeEffect throws (Some h) (Some t) (options_param oa)
      (creationEffect \<lparr>cl_observer = Some h, cl_callback = cb\<rparr>
        (run_cleanup (s\<lparr>next_fn := Suc (next_fn s),
           deps1 := Some (next_fn s, obj_id (options_param oa)),
           deps2 := Some (Some h, Some t, obj_id (options_param oa))\<rparr>))))) h"
    by (rule observeEffect_registers)
  moreover have "deps_changed (deps2 s) (Some h, Some t, obj_id (options_param oa))"
    using alloc_runs_observe [OF assms(1), of "Some t" "obj_id (options_param oa)"] assms(2)
    by simp
  ultimately show ?thesis
    using assms(1,2)
    by (simp add: useMutationObserver_def Let_def split_beta alloc_runs_creation)
qed

subsection \<open>An instance that is never given a callable callback\<close>

lemma nt_inv_init: "nt_inv init"
  by (simp add: nt_inv_def init_def closure_of_def)

lemma handleChanges_not_callable:
  assumes "\<not> callable (cl_callback c)"
  shows "st_value (handleChanges c m s) = st_value s"
    and "trace (handleChanges c m s) =
      trace s @ (case cl_observer c of
                   None \<Rightarrow> []
                 | Some ob \<Rightarrow> [ConsoleWarn ''useMutationObserver: callback is not a function''])"
  using assms
  by (cases "cl_observer c"; cases "cl_callback c";
      simp add: callable_def handleChanges_value handleChanges_trace)+

lemma nt_inv_step:
  assumes "nt_inv s" and "no_transform e"
  shows "nt_inv (step throws s e)"
proof (cases e)
  case (Render t cb oa)
  then show ?thesis using assms
    by (auto simp: nt_inv_def no_transform_def render_fields render_closure_of split: if_splits)
next
  case (Notify h m)
  show ?thesis
  proof (cases "observers s h")
    case None
    with Notify assms(1) show ?thesis by (simp add: deliver_def)
  next
    case (Some mo)
    with assms(1) have "\<not> callable (cl_callback (mo_callback mo))"
      by (auto simp: nt_inv_def closure_of_def)
    with Some Notify assms(1) show ?thesis
      by (simp add: nt_inv_def deliver_def handleChanges_not_callable)
  qed
next
  case Unmount
  then show ?thesis using assms(1) by (simp add: nt_inv_def)
qed

lemma nt_inv_run:
  assumes "\<forall>e \<in> set es. no_transform e"
  shows "nt_inv (run throws init es)"
  using assms
proof (induction es rule: rev_induct)
  case Nil
  show ?case by (simp add: run_def nt_inv_init)
next
  case (snoc e es)
  then show ?case by (simp add: run_snoc nt_inv_step)
qed

subsection \<open>Evaluating concrete runs\<close>

lemmas eval_defs =
  run_def useMutationObserver_def Let_def deps_changed_def init_def run_cleanup_def
  creationEffect_def new_MutationObserver_def emit_def setObserver_def setValue_def
  observeEffect_def mo_observe_def mo_disconnect_def deliver_def handleChanges_def
  options_param_def never_throws_def observing_def new_events_def

section \<open>The claims\<close>

subsection \<open>C1: one live handle\<close>

text \<open>
  C1 as stated, with a handle live from its construction until its \<^verbatim>\<open>disconnect\<close>, fails:
  after the mount and one more render of the same arguments, observers 0 and 1 have both
  been constructed and neither has been disconnected. The second effect's cleanup is the
  only place that disconnects, and it disconnects the observer of the previous commit, so
  the observer in the cell is replaced while it is still connected.
\<close>

theorem two_connected_handles_counterexample:
  "\<not> never_two handle_created []
       (trace (run never_throws (init :: nat hook)
          [Render (Some 7) Undefined None, Render (Some 7) Undefined None]))"
  by (simp add: eval_defs live_step_def handle_created_def)

text \<open>
  C1 as amended: in every reachable state, and at every point of the trace that leads to
  it, at most one handle has had \<^verbatim>\<open>observe\<close> called on it without a later
  \<^verbatim>\<open>disconnect\<close>; an observer registered in the browser is that handle. Hence a handle
  is registered only after the one registered before it was disconnected.
\<close>

theorem at_most_one_registered_handle:
  "never_two handle_registered [] (trace (run throws init es)) \<and>
   (\<forall>h. observing (run throws init es) h \<longrightarrow>
      live_after handle_registered [] (trace (run throws init es)) = [h])"
proof -
  have "live_inv (run throws init es)" by (rule live_inv_run)
  moreover have "reg_inv (run throws init es)" by (rule reg_inv_run)
  ultimately show ?thesis by (auto simp: live_inv_def reg_inv_def pending_def)
qed

text \<open>C1, a run of the amended statement: after two renders observer 0 is the registered one.\<close>

theorem at_most_one_registered_handle_witness:
  "observing (run never_throws (init :: nat hook)
      [Render (Some 7) Undefined None, Render (Some 7) Undefined None]) 0 \<and>
   live_after handle_registered []
     (trace (run never_throws (init :: nat hook)
        [Render (Some 7) Undefined None, Render (Some 7) Undefined None])) = [0]"
proof -
  have o: "observing (run never_throws (init :: nat hook)
      [Render (Some 7) Undefined None, Render (Some 7) Undefined None]) 0"
    by (simp add: eval_defs)
  with at_most_one_registered_handle
    [of never_throws "[Render (Some 7) Undefined None, Render (Some 7) Undefined None]"]
  show ?thesis by blast
qed

subsection \<open>C2: when a handle is created, and what its callback does\<close>

text \<open>
  C2 as stated fails twice. A second render with the same callback (none) and the same
  configuration (none, so the module constant) constructs observer 1. And the callback of
  observer 1, when a batch is delivered to it, calls the transform with observer 0, the
  content of the \<^verbatim>\<open>observer\<close> cell at the render that built the closure, while the cell
  holds observer 2 by then.
\<close>

theorem handle_created_without_change_counterexample:
  "created (trace (run never_throws (init :: nat hook)
      [Render (Some 7) Undefined None])) = [0] \<and>
   created (trace (run never_throws (init :: nat hook)
      [Render (Some 7) Undefined None, Render (Some 7) Undefined None])) = [0, 1] \<and>
   st_observer (run never_throws (init :: nat hook)
      [Render (Some 7) (Function (\<lambda>ms h. Some (Value h))) None,
       Render (Some 7) (Function (\<lambda>ms h. Some (Value h))) None,
       Render (Some 7) (Function (\<lambda>ms h. Some (Value h))) None]) = Some 2 \<and>
   new_events
     (run never_throws (init :: nat hook)
        [Render (Some 7) (Function (\<lambda>ms h. Some (Value h))) None,
         Render (Some 7) (Function (\<lambda>ms h. Some (Value h))) None,
         Render (Some 7) (Function (\<lambda>ms h. Some (Value h))) None])
     (run never_throws (init :: nat hook)
        [Render (Some 7) (Function (\<lambda>ms h. Some (Value h))) None,
         Render (Some 7) (Function (\<lambda>ms h. Some (Value h))) None,
         Render (Some 7) (Function (\<lambda>ms h. Some (Value h))) None,
         Notify 1 []]) = [CallbackInvoked [] 0 (Some (Value 0))]"
  by (simp add: eval_defs)

text \<open>
  C2 as amended. A render constructs exactly one observer when it is the first or when the
  dependency array of the first effect differs from the one of the previous render, that
  is, when the reference of \<^verbatim>\<open>handleChanges\<close> or of the configuration differs; the
  callback of that observer closes over the \<^verbatim>\<open>observer\<close> cell and the \<^verbatim>\<open>callback\<close> of
  that render. A notification and the discard construct none. A batch delivered to a
  registered observer calls the closed-over callback once, with the batch and the
  closed-over observer, when that observer is not \<^verbatim>\<open>null\<close> and the callback is a
  function; it calls nothing when the closed-over observer is \<^verbatim>\<open>null\<close>. At which
  renders the reference of \<^verbatim>\<open>handleChanges\<close> differs is not part of the statement.
\<close>

theorem handle_created_when_dependencies_change:
  "(deps1 s = None \<or>
    (\<exists>f r. deps1 s = Some (f, r) \<and> (f \<noteq> next_fn s \<or> r \<noteq> obj_id (options_param oa))) \<longrightarrow>
      created (new_events s (snd (useMutationObserver throws t cb oa s))) = [next_obs s] \<and>
      closure_of (snd (useMutationObserver throws t cb oa s)) (next_obs s) =
        Some \<lparr>cl_observer = st_observer s, cl_callback = cb\<rparr>) \<and>
   created (new_events u (step throws u (Notify h m))) = [] \<and>
   created (new_events u (step throws u Unmount)) = [] \<and>
   (observers u h = Some mo \<and> mo_nodes mo \<noteq> [] \<longrightarrow>
      new_events u (step throws u (Notify h m)) =
        (case cl_observer (mo_callback mo) of
           None \<Rightarrow> []
         | Some ob \<Rightarrow>
             (case cl_callback (mo_callback mo) of
                Function g \<Rightarrow> [CallbackInvoked m ob (g m ob)]
              | _ \<Rightarrow> [ConsoleWarn ''useMutationObserver: callback is not a function''])))"
proof (intro conjI impI)
  assume "deps1 s = None \<or>
    (\<exists>f r. deps1 s = Some (f, r) \<and> (f \<noteq> next_fn s \<or> r \<noteq> obj_id (options_param oa)))"
  then have d: "deps_changed (deps1 s) (next_fn s, obj_id (options_param oa))"
    by (auto simp: deps_changed_def)
  then show "created (new_events s (snd (useMutationObserver throws t cb oa s))) = [next_obs s]"
    by (simp add: render_created)
  from d show "closure_of (snd (useMutationObserver throws t cb oa s)) (next_obs s) =
        Some \<lparr>cl_observer = st_observer s, cl_callback = cb\<rparr>"
    by (simp add: render_closure_of)
next
  show "created (new_events u (step throws u (Notify h m))) = []"
    by (simp add: created_new_deliver)
  show "created (new_events u (step throws u Unmount)) = []"
    by (simp add: new_events_def)
next
  assume "observers u h = Some mo \<and> mo_nodes mo \<noteq> []"
  then show "new_events u (step throws u (Notify h m)) =
        (case cl_observer (mo_callback mo) of
           None \<Rightarrow> []
         | Some ob \<Rightarrow>
             (case cl_callback (mo_callback mo) of
                Function g \<Rightarrow> [CallbackInvoked m ob (g m ob)]
              | _ \<Rightarrow> [ConsoleWarn ''useMutationObserver: callback is not a function'']))"
    by (simp add: deliver_new_events)
qed

text \<open>
  C2, a run of the amended statement: after the mount with one configuration, a render
  with another constructs observer 1, which closes over observer 0; and after three
  renders a batch for observer 1 calls the callback with observer 0.
\<close>

theorem handle_created_when_dependencies_change_witness:
  "deps1 (run never_throws (init :: nat hook)
      [Render (Some 7) (Function (\<lambda>ms h. Some (Value h))) (Some optsA)]) = Some (0, 1) \<and>
   created (new_events
     (run never_throws (init :: nat hook)
        [Render (Some 7) (Function (\<lambda>ms h. Some (Value h))) (Some optsA)])
     (snd (useMutationObserver never_throws (Some 7) (Function (\<lambda>ms h. Some (Value h)))
        (Some optsB)
        (run never_throws (init :: nat hook)
           [Render (Some 7) (Function (\<lambda>ms h. Some (Value h))) (Some optsA)])))) = [1] \<and>
   closure_of
     (snd (useMutationObserver never_throws (Some 7) (Function (\<lambda>ms h. Some (Value h)))
        (Some optsB)
        (run never_throws (init :: nat hook)
           [Render (Some 7) (Function (\<lambda>ms h. Some (Value h))) (Some optsA)]))) 1 =
     Some \<lparr>cl_observer = Some 0, cl_callback = Function (\<lambda>ms h. Some (Value h))\<rparr> \<and>
   observers (run never_throws (init :: nat hook)
      [Render (Some 7) (Function (\<lambda>ms h. Some (Value h))) None,
       Render (Some 7) (Function (\<lambda>ms h. Some (Value h))) None,
       Render (Some 7) (Function (\<lambda>ms h. Some (Value h))) None]) 1 =
     Some \<lparr>mo_callback =
             \<lparr>cl_observer = Some 0, cl_callback = Function (\<lambda>ms h. Some (Value h))\<rparr>,
           mo_nodes = [(7, defaultMutationObserverOptions)]\<rparr> \<and>
   new_events
     (run never_throws (init :: nat hook)
        [Render (Some 7) (Function (\<lambda>ms h. Some (Value h))) None,
         Render (Some 7) (Function (\<lambda>ms h. Some (Value h))) None,
         Render (Some 7) (Function (\<lambda>ms h. Some (Value h))) None])
     (step never_throws (run never_throws (init :: nat hook)
        [Render (Some 7) (Function (\<lambda>ms h. Some (Value h))) None,
         Render (Some 7) (Function (\<lambda>ms h. Some (Value h))) None,
         Render (Some 7) (Function (\<lambda>ms h. Some (Value h))) None]) (Notify 1 [])) =
     [CallbackInvoked [] 0 (Some (Value 0))]"
proof -
  define s1 where "s1 = run never_throws (init :: nat hook)
      [Render (Some 7) (Function (\<lambda>ms h. Some (Value h))) (Some optsA)]"
  define s3 where "s3 = run never_throws (init :: nat hook)
      [Render (Some 7) (Function (\<lambda>ms h. Some (Value h))) None,
       Render (Some 7) (Function (\<lambda>ms h. Some (Value h))) None,
       Render (Some 7) (Function (\<lambda>ms h. Some (Value h))) None]"
  have a: "deps1 s1 = Some (0, 1)"
    and b: "next_obs s1 = 1"
    and c: "st_observer s1 = Some 0"
    and d: "obj_id (options_param (Some optsB)) = 2"
    by (simp_all add: s1_def eval_defs optsA_def optsB_def)
  have e: "observers s3 1 =
     Some \<lparr>mo_callback =
             \<lparr>cl_observer = Some 0, cl_callback = Function (\<lambda>ms h. Some (Value h))\<rparr>,
           mo_nodes = [(7, defaultMutationObserverOptions)]\<rparr>"
    by (simp add: s3_def eval_defs)
  note inst = handle_created_when_dependencies_change
    [where s = s1 and oa = "Some optsB" and throws = never_throws and t = "Some 7" and
      cb = "Function (\<lambda>ms h. Some (Value h))" and u = s3 and h = 1 and m = "[]" and
      mo = "\<lparr>mo_callback =
             \<lparr>cl_observer = Some 0, cl_callback = Function (\<lambda>ms h. Some (Value h))\<rparr>,
           mo_nodes = [(7, defaultMutationObserverOptions)]\<rparr>"]
  from a d have f: "deps1 s1 = None \<or>
    (\<exists>f r. deps1 s1 = Some (f, r) \<and>
       (f \<noteq> next_fn s1 \<or> r \<noteq> obj_id (options_param (Some optsB))))"
    by simp
  from inst f have p1:
    "created (new_events s1 (snd (useMutationObserver never_throws (Some 7)
        (Function (\<lambda>ms h. Some (Value h))) (Some optsB) s1))) = [next_obs s1]"
    and p2: "closure_of (snd (useMutationObserver never_throws (Some 7)
        (Function (\<lambda>ms h. Some (Value h))) (Some optsB) s1)) (next_obs s1) =
        Some \<lparr>cl_observer = st_observer s1, cl_callback = Function (\<lambda>ms h. Some (Value h))\<rparr>"
    by blast+
  from p1 b have q1:
    "created (new_events s1 (snd (useMutationObserver never_throws (Some 7)
        (Function (\<lambda>ms h. Some (Value h))) (Some optsB) s1))) = [1]"
    by simp
  from p2 b c have q2: "closure_of (snd (useMutationObserver never_throws (Some 7)
        (Function (\<lambda>ms h. Some (Value h))) (Some optsB) s1)) 1 =
        Some \<lparr>cl_observer = Some 0, cl_callback = Function (\<lambda>ms h. Some (Value h))\<rparr>"
    by simp
  from inst e have q3: "new_events s3 (step never_throws s3 (Notify 1 [])) =
     [CallbackInvoked [] 0 (Some (Value 0))]"
    by simp
  from a q1 q2 e q3 show ?thesis unfolding s1_def s3_def by blast
qed

subsection \<open>C3: the value changes only at a defined result\<close>

text \<open>
  C3: a batch for which the callback returned \<^verbatim>\<open>undefined\<close> leaves the value as it was;
  and whenever a step changes the value, the step is a notification in which the callback
  returned a defined result, and the value is what the setter stores for that result: the
  result when it is not a function, what it returns for the value stored before when it is.
\<close>

theorem value_replaced_only_by_defined_result:
  "(\<forall>ob. CallbackInvoked m ob None \<in> set (new_events s (step throws s (Notify h m))) \<longrightarrow>
      st_value (step throws s (Notify h m)) = st_value s) \<and>
   (st_value (step throws s e) \<noteq> st_value s \<longrightarrow>
      (\<exists>h' m' ob r. e = Notify h' m' \<and>
         new_events s (step throws s e) = [CallbackInvoked m' ob (Some r)] \<and>
         st_value (step throws s e) = basicStateReducer (st_value s) r))"
proof (intro conjI allI impI)
  fix ob
  assume "CallbackInvoked m ob None \<in> set (new_events s (step throws s (Notify h m)))"
  then show "st_value (step throws s (Notify h m)) = st_value s"
    by (auto simp: deliver_def new_events_def handleChanges_trace handleChanges_value
        split: option.splits if_splits callback_arg.splits)
next
  assume c: "st_value (step throws s e) \<noteq> st_value s"
  show "\<exists>h' m' ob r. e = Notify h' m' \<and>
         new_events s (step throws s e) = [CallbackInvoked m' ob (Some r)] \<and>
         st_value (step throws s e) = basicStateReducer (st_value s) r"
  proof (cases e)
    case (Render t cb oa)
    with c show ?thesis by (simp add: render_fields split: if_splits)
  next
    case (Notify h' m')
    with c show ?thesis
      by (auto simp: deliver_def new_events_def handleChanges_trace handleChanges_value
          split: option.splits if_splits callback_arg.splits)
  next
    case Unmount
    with c show ?thesis by (simp split: if_splits)
  qed
qed

text \<open>
  C3, a run: the callback returns \<^verbatim>\<open>undefined\<close> for the empty batch and otherwise a
  function that returns 42. After three renders observer 1 is registered; the empty batch
  leaves the value, a batch of one record sets it to 42.
\<close>

theorem value_replaced_only_by_defined_result_witness:
  "CallbackInvoked [] 0 None \<in>
     set (new_events
       (run never_throws (init :: nat hook)
          [Render (Some 7)
             (Function (\<lambda>ms h. if ms = [] then None else Some (Updater (\<lambda>p. Some 42)))) None,
           Render (Some 7)
             (Function (\<lambda>ms h. if ms = [] then None else Some (Updater (\<lambda>p. Some 42)))) None,
           Render (Some 7)
             (Function (\<lambda>ms h. if ms = [] then None else Some (Updater (\<lambda>p. Some 42)))) None])
       (step never_throws
          (run never_throws (init :: nat hook)
            [Render (Some 7)
               (Function (\<lambda>ms h. if ms = [] then None else Some (Updater (\<lambda>p. Some 42)))) None,
             Render (Some 7)
               (Function (\<lambda>ms h. if ms = [] then None else Some (Updater (\<lambda>p. Some 42)))) None,
             Render (Some 7)
               (Function (\<lambda>ms h. if ms = [] then None else Some (Updater (\<lambda>p. Some 42)))) None])
          (Notify 1 []))) \<and>
   st_value (step never_throws
          (run never_throws (init :: nat hook)
            [Render (Some 7)
               (Function (\<lambda>ms h. if ms = [] then None else Some (Updater (\<lambda>p. Some 42)))) None,
             Render (Some 7)
               (Function (\<lambda>ms h. if ms = [] then None else Some (Updater (\<lambda>p. Some 42)))) None,
             Render (Some 7)
               (Function (\<lambda>ms h. if ms = [] then None else Some (Updater (\<lambda>p. Some 42)))) None])
          (Notify 1 [])) =
   st_value (run never_throws (init :: nat hook)
            [Render (Some 7)
               (Function (\<lambda>ms h. if ms = [] then None else Some (Updater (\<lambda>p. Some 42)))) None,
             Render (Some 7)
               (Function (\<lambda>ms h. if ms = [] then None else Some (Updater (\<lambda>p. Some 42)))) None,
             Render (Some 7)
               (Function (\<lambda>ms h. if ms = [] then None else Some (Updater (\<lambda>p. Some 42)))) None]) \<and>
   st_value (step never_throws
          (run never_throws (init :: nat hook)
            [Render (Some 7)
               (Function (\<lambda>ms h. if ms = [] then None else Some (Updater (\<lambda>p. Some 42)))) None,
             Render (Some 7)
               (Function (\<lambda>ms h. if ms = [] then None else Some (Updater (\<lambda>p. Some 42)))) None,
             Render (Some 7)
               (Function (\<lambda>ms h. if ms = [] then None else Some (Updater (\<lambda>p. Some 42)))) None])
          (Notify 1 [MutationRecord ''attributes'' 7 (Some ''class'') None])) = Some 42"
proof -
  define s3 where "s3 = run never_throws (init :: nat hook)
            [Render (Some 7)
               (Function (\<lambda>ms h. if ms = [] then None else Some (Updater (\<lambda>p. Some 42)))) None,
             Render (Some 7)
               (Function (\<lambda>ms h. if ms = [] then None else Some (Updater (\<lambda>p. Some 42)))) None,
             Render (Some 7)
               (Function (\<lambda>ms h. if ms = [] then None else Some (Updater (\<lambda>p. Some 42)))) None]"
  have a: "CallbackInvoked [] 0 None \<in> set (new_events s3 (step never_throws s3 (Notify 1 [])))"
    and b: "st_value (step never_throws s3
         (Notify 1 [MutationRecord ''attributes'' 7 (Some ''class'') None])) \<noteq> st_value s3"
    and c: "new_events s3 (step never_throws s3
         (Notify 1 [MutationRecord ''attributes'' 7 (Some ''class'') None])) =
       [CallbackInvoked [MutationRecord ''attributes'' 7 (Some ''class'') None] 0
          (Some (Updater (\<lambda>p. Some 42)))]"
    and d: "st_value s3 = None"
    by (simp_all add: s3_def eval_defs)
  from value_replaced_only_by_defined_result
    [where s = s3 and throws = never_throws and h = 1 and m = "[]" and
      e = "Notify 1 [MutationRecord ''attributes'' 7 (Some ''class'') None]"] a b c d
  show ?thesis unfolding s3_def by auto
qed

subsection \<open>C4: a callback that is absent or not a function\<close>

text \<open>
  C4 as stated fails: with no callback, after two renders observer 0 is registered, and a
  batch delivered to it adds nothing to the trace, so no warning. Its closure was built at
  the mount, when the \<^verbatim>\<open>observer\<close> cell was \<^verbatim>\<open>null\<close>, and the guard of line 76 comes
  before the test of the callback.
\<close>

theorem no_warning_from_first_handle_counterexample:
  "observing (run never_throws (init :: nat hook)
      [Render (Some 7) Undefined None, Render (Some 7) Undefined None]) 0 \<and>
   new_events
     (run never_throws (init :: nat hook)
        [Render (Some 7) Undefined None, Render (Some 7) Undefined None])
     (run never_throws (init :: nat hook)
        [Render (Some 7) Undefined None, Render (Some 7) Undefined None,
         Notify 0 [MutationRecord ''attributes'' 7 (Some ''class'') None]]) = []"
  by (simp add: eval_defs)

text \<open>
  C4 as amended: a batch delivered to a registered observer whose closure holds no callable
  callback leaves the value as it was and adds to the trace one warning when the closure's
  \<^verbatim>\<open>observer\<close> is not \<^verbatim>\<open>null\<close>, and nothing when it is. When no render of the instance
  was given a callable callback, the value is \<^verbatim>\<open>undefined\<close> in every reachable state.
  \<open>step\<close> is total, so nothing is thrown.
\<close>

theorem uncallable_callback_warns_unless_null_closure:
  "(observers s h = Some mo \<and> mo_nodes mo \<noteq> [] \<and> \<not> callable (cl_callback (mo_callback mo)) \<longrightarrow>
      new_events s (step throws s (Notify h m)) =
        (case cl_observer (mo_callback mo) of
           None \<Rightarrow> []
         | Some ob \<Rightarrow> [ConsoleWarn ''useMutationObserver: callback is not a function'']) \<and>
      st_value (step throws s (Notify h m)) = st_value s) \<and>
   ((\<forall>e \<in> set es. no_transform e) \<longrightarrow> st_value (run throws init es) = None)"
proof (intro conjI impI)
  assume a: "observers s h = Some mo \<and> mo_nodes mo \<noteq> [] \<and>
    \<not> callable (cl_callback (mo_callback mo))"
  then show "new_events s (step throws s (Notify h m)) =
        (case cl_observer (mo_callback mo) of
           None \<Rightarrow> []
         | Some ob \<Rightarrow> [ConsoleWarn ''useMutationObserver: callback is not a function''])"
    by (simp add: new_events_def deliver_def handleChanges_not_callable)
  from a show "st_value (step throws s (Notify h m)) = st_value s"
    by (simp add: deliver_def handleChanges_not_callable)
next
  assume "\<forall>e \<in> set es. no_transform e"
  then have "nt_inv (run throws init es)" by (rule nt_inv_run)
  then show "st_value (run throws init es) = None" by (simp add: nt_inv_def)
qed

text \<open>
  C4, a run of the amended statement: after three renders without a callback observer 1
  is registered and closes over observer 0; a batch for it gives one warning, and the
  value is still \<^verbatim>\<open>undefined\<close>.
\<close>

theorem uncallable_callback_warns_unless_null_closure_witness:
  "observers (run never_throws (init :: nat hook)
      [Render (Some 7) Undefined None, Render (Some 7) Undefined None,
       Render (Some 7) Undefined None]) 1 =
     Some \<lparr>mo_callback = \<lparr>cl_observer = Some 0, cl_callback = Undefined\<rparr>,
           mo_nodes = [(7, defaultMutationObserverOptions)]\<rparr> \<and>
   new_events
     (run never_throws (init :: nat hook)
       [Render (Some 7) Undefined None, Render (Some 7) Undefined None,
        Render (Some 7) Undefined None])
     (step never_throws (run never_throws (init :: nat hook)
       [Render (Some 7) Undefined None, Render (Some 7) Undefined None,
        Render (Some 7) Undefined None]) (Notify 1 [])) =
     [ConsoleWarn ''useMutationObserver: callback is not a function''] \<and>
   st_value (run never_throws (init :: nat hook)
       [Render (Some 7) Undefined None, Render (Some 7) Undefined None,
        Render (Some 7) Undefined None, Notify 1 []]) = None"
proof -
  have a: "observers (run never_throws (init :: nat hook)
      [Render (Some 7) Undefined None, Render (Some 7) Undefined None,
       Render (Some 7) Undefined None]) 1 =
     Some \<lparr>mo_callback = \<lparr>cl_observer = Some 0, cl_callback = Undefined\<rparr>,
           mo_nodes = [(7, defaultMutationObserverOptions)]\<rparr>"
    by (simp add: eval_defs)
  have b: "\<forall>e \<in> set [Render (Some 7) Undefined None,
        Render (Some 7) (Undefined :: nat callback_arg) None,
        Render (Some 7) Undefined None, Notify 1 []]. no_transform e"
    by (simp add: no_transform_def callable_def)
  from uncallable_callback_warns_unless_null_closure
    [where throws = never_throws and h = 1 and m = "[]" and
      s = "run never_throws (init :: nat hook)
        [Render (Some 7) Undefined None, Render (Some 7) Undefined None,
         Render (Some 7) Undefined None]" and
      mo = "\<lparr>mo_callback = \<lparr>cl_observer = Some 0, cl_callback = Undefined\<rparr>,
           mo_nodes = [(7, defaultMutationObserverOptions)]\<rparr>" and
      es = "[Render (Some 7) (Undefined :: nat callback_arg) None,
        Render (Some 7) Undefined None, Render (Some 7) Undefined None, Notify 1 []]"]
  have "new_events
     (run never_throws (init :: nat hook)
       [Render (Some 7) Undefined None, Render (Some 7) Undefined None,
        Render (Some 7) Undefined None])
     (step never_throws (run never_throws (init :: nat hook)
       [Render (Some 7) Undefined None, Render (Some 7) Undefined None,
        Render (Some 7) Undefined None]) (Notify 1 [])) =
     [ConsoleWarn ''useMutationObserver: callback is not a function'']"
    and "st_value (run never_throws (init :: nat hook)
       [Render (Some 7) Undefined None, Render (Some 7) Undefined None,
        Render (Some 7) Undefined None, Notify 1 []]) = None"
    using a b by (simp_all add: callable_def)
  with a show ?thesis by blast
qed

subsection \<open>C5: a registration that throws\<close>

text \<open>
  C5: when \<^verbatim>\<open>observe\<close> throws for the target and the configuration, the second effect
  still returns: it has logged the error with \<^verbatim>\<open>console.error\<close> after the call, has
  left the two cells and the observers as they were, and has returned its cleanup. In
  every reachable state of a live instance that holds an observer, the next render with a
  target calls \<^verbatim>\<open>observe\<close> on that observer again, and registers it when the call does
  not throw.
\<close>

theorem registration_failure_is_caught:
  "(throws t opts = Some e \<longrightarrow>
      mo_observe throws h t opts s = Inl (e, emit (Observe h t opts) s) \<and>
      snd (observeEffect throws (Some h) (Some t) opts s) = Some h \<and>
      trace (fst (observeEffect throws (Some h) (Some t) opts s)) =
        trace s @ [Observe h t opts, ConsoleError e] \<and>
      st_value (fst (observeEffect throws (Some h) (Some t) opts s)) = st_value s \<and>
      st_observer (fst (observeEffect throws (Some h) (Some t) opts s)) = st_observer s \<and>
      observers (fst (observeEffect throws (Some h) (Some t) opts s)) = observers s) \<and>
   (\<not> unmounted (run throws init es) \<and> st_observer (run throws init es) = Some h' \<longrightarrow>
      Observe h' t' (options_param oa) \<in>
        set (new_events (run throws init es)
               (step throws (run throws init es) (Render (Some t') cb oa))) \<and>
      (throws t' (options_param oa) = None \<longrightarrow>
         observing (step throws (run throws init es) (Render (Some t') cb oa)) h'))"
proof (intro conjI impI)
  assume "throws t opts = Some e"
  then show "mo_observe throws h t opts s = Inl (e, emit (Observe h t opts) s)"
    and "snd (observeEffect throws (Some h) (Some t) opts s) = Some h"
    and "trace (fst (observeEffect throws (Some h) (Some t) opts s)) =
        trace s @ [Observe h t opts, ConsoleError e]"
    and "st_value (fst (observeEffect throws (Some h) (Some t) opts s)) = st_value s"
    and "st_observer (fst (observeEffect throws (Some h) (Some t) opts s)) = st_observer s"
    and "observers (fst (observeEffect throws (Some h) (Some t) opts s)) = observers s"
    by (simp_all add: mo_observe_def observeEffect_def)
next
  assume a: "\<not> unmounted (run throws init es) \<and> st_observer (run throws init es) = Some h'"
  have i: "alloc_inv (run throws init es)" by (rule alloc_inv_run)
  from a show "Observe h' t' (options_param oa) \<in>
        set (new_events (run throws init es)
               (step throws (run throws init es) (Render (Some t') cb oa)))"
    using render_calls_observe [OF i, of h' t' oa throws cb] by simp
  show "observing (step throws (run throws init es) (Render (Some t') cb oa)) h'"
    if "throws t' (options_param oa) = None"
    using a that render_registers [OF i, of h' throws t' oa cb] by simp
qed

text \<open>
  C5, a run: \<^verbatim>\<open>observe\<close> throws for node 7 only. The second render, with target 7, logs
  the error; the third, with target 8, calls \<^verbatim>\<open>observe\<close> on observer 1 and registers it.
\<close>

theorem registration_failure_is_caught_witness:
  "throws_for 7 7 defaultMutationObserverOptions = Some TypeError \<and>
   trace (fst (observeEffect (throws_for 7) (Some 0) (Some 7) defaultMutationObserverOptions
      (init :: nat hook))) =
     [Observe 0 7 defaultMutationObserverOptions, ConsoleError TypeError] \<and>
   st_observer (run (throws_for 7) (init :: nat hook)
      [Render (Some 7) Undefined None, Render (Some 7) Undefined None]) = Some 1 \<and>
   ConsoleError TypeError \<in> set (trace (run (throws_for 7) (init :: nat hook)
      [Render (Some 7) Undefined None, Render (Some 7) Undefined None])) \<and>
   Observe 1 8 defaultMutationObserverOptions \<in>
     set (new_events
       (run (throws_for 7) (init :: nat hook)
          [Render (Some 7) Undefined None, Render (Some 7) Undefined None])
       (step (throws_for 7) (run (throws_for 7) (init :: nat hook)
          [Render (Some 7) Undefined None, Render (Some 7) Undefined None])
          (Render (Some 8) Undefined None))) \<and>
   observing (step (throws_for 7) (run (throws_for 7) (init :: nat hook)
          [Render (Some 7) Undefined None, Render (Some 7) Undefined None])
          (Render (Some 8) Undefined None)) 1"
proof -
  have a: "throws_for 7 7 defaultMutationObserverOptions = Some TypeError"
    and b: "throws_for 7 8 (options_param None) = None"
    and c: "\<not> unmounted (run (throws_for 7) (init :: nat hook)
      [Render (Some 7) Undefined None, Render (Some 7) Undefined None])"
    and d: "st_observer (run (throws_for 7) (init :: nat hook)
      [Render (Some 7) Undefined None, Render (Some 7) Undefined None]) = Some 1"
    and e: "ConsoleError TypeError \<in> set (trace (run (throws_for 7) (init :: nat hook)
      [Render (Some 7) Undefined None, Render (Some 7) Undefined None]))"
    and f: "options_param None = defaultMutationObserverOptions"
    by (simp_all add: eval_defs throws_for_def)
  from registration_failure_is_caught
    [where throws = "throws_for 7" and t = 7 and opts = defaultMutationObserverOptions and
      e = TypeError and h = 0 and s = "init :: nat hook" and
      es = "[Render (Some 7) Undefined None, Render (Some 7) Undefined None]" and
      h' = 1 and t' = 8 and oa = None and cb = "Undefined :: nat callback_arg"] a b c d e
  show ?thesis unfolding f by (simp add: init_def)
qed

subsection \<open>C6: a change of the configuration\<close>

text \<open>
  C6 as stated fails. Three renders, each with a configuration of another identity than
  the one before: the commit of the second disconnects nothing, although observer 0
  exists; and after the commit of the third, observers 1 and 2 have both been constructed
  and neither has been disconnected.
\<close>

theorem config_change_counterexample:
  "trace (run never_throws (init :: nat hook)
      [Render (Some 7) Undefined (Some optsA), Render (Some 7) Undefined (Some optsB),
       Render (Some 7) Undefined (Some optsA)]) =
     [NewObserver 0,
      NewObserver 1, Observe 0 7 optsB,
      Disconnect 0, NewObserver 2, Observe 1 7 optsA] \<and>
   live_after handle_created []
     (trace (run never_throws (init :: nat hook)
        [Render (Some 7) Undefined (Some optsA), Render (Some 7) Undefined (Some optsB),
         Render (Some 7) Undefined (Some optsA)])) = [1, 2]"
  by (simp add: eval_defs live_step_def handle_created_def optsA_def optsB_def live_after_def)

text \<open>
  C6 as amended, for a render of a live instance in a reachable state whose configuration
  has another identity than the one of the previous render. The handles on which
  \<^verbatim>\<open>observe\<close> was called without a later \<^verbatim>\<open>disconnect\<close> are at most one, and an
  observer registered in the browser is that one. The commit disconnects exactly these,
  so the registered handle once and nothing when there is none, then constructs exactly
  one observer, and these are the first actions of the commit; and at no point of the
  trace, the commit included, have two handles had \<^verbatim>\<open>observe\<close> called on them without
  a \<^verbatim>\<open>disconnect\<close>.
\<close>

theorem config_change_commit:
  "\<not> unmounted (run throws init es) \<and>
   deps1 (run throws init es) = Some (f, r) \<and>
   deps2 (run throws init es) = Some (ob, t0, r) \<and>
   r \<noteq> obj_id (options_param oa) \<longrightarrow>
     length (live_after handle_registered [] (trace (run throws init es))) \<le> 1 \<and>
     (\<forall>h. observing (run throws init es) h \<longrightarrow>
        live_after handle_registered [] (trace (run throws init es)) = [h]) \<and>
     disconnected (new_events (run throws init es)
        (step throws (run throws init es) (Render t cb oa))) =
       live_after handle_registered [] (trace (run throws init es)) \<and>
     created (new_events (run throws init es)
        (step throws (run throws init es) (Render t cb oa))) =
       [next_obs (run throws init es)] \<and>
     take (Suc (length (live_after handle_registered [] (trace (run throws init es)))))
       (new_events (run throws init es) (step throws (run throws init es) (Render t cb oa))) =
       map Disconnect (live_after handle_registered [] (trace (run throws init es))) @
       [NewObserver (next_obs (run throws init es))] \<and>
     never_two handle_registered [] (trace (step throws (run throws init es) (Render t cb oa)))"
  (is "?changed \<longrightarrow> ?commit")
proof
  define s where "s = run throws init es"
  define s' where "s' = step throws s (Render t cb oa)"
  assume ?changed
  then have u: "\<not> unmounted s"
    and d1: "deps_changed (deps1 s) (next_fn s, obj_id (options_param oa))"
    and d2: "deps_changed (deps2 s) (st_observer s, t, obj_id (options_param oa))"
    by (simp_all add: s_def deps_changed_def)
  have l: "live_inv s" unfolding s_def by (rule live_inv_run)
  have g: "reg_inv s" unfolding s_def by (rule reg_inv_run)
  from l have p: "live_after handle_registered [] (trace s) = pending s"
    by (simp add: live_inv_def)
  have n: "new_events s s' =
     cleanup_events (cleanup2 s) @ [NewObserver (next_obs s)] @
     observe_events throws (st_observer s) t (options_param oa)"
    using u render_new_events_changed [OF d1 d2] by (simp add: s'_def)
  have c1: "length (live_after handle_registered [] (trace s)) \<le> 1"
    unfolding p by (cases "cleanup2 s") (simp_all add: pending_def)
  have c2: "\<forall>h. observing s h \<longrightarrow> live_after handle_registered [] (trace s) = [h]"
    unfolding p using g by (simp add: reg_inv_def pending_def)
  have c3: "disconnected (new_events s s') = live_after handle_registered [] (trace s)"
    unfolding p n by simp
  have c4: "created (new_events s s') = [next_obs s]"
    unfolding n by simp
  have c5: "take (Suc (length (live_after handle_registered [] (trace s)))) (new_events s s') =
       map Disconnect (live_after handle_registered [] (trace s)) @ [NewObserver (next_obs s)]"
    unfolding p n by (cases "cleanup2 s") (simp_all add: pending_def)
  have "live_inv (run throws init (es @ [Render t cb oa]))" by (rule live_inv_run)
  then have c6: "never_two handle_registered [] (trace s')"
    by (simp add: run_snoc live_inv_def s_def s'_def)
  from c1 c2 c3 c4 c5 c6 show ?commit unfolding s'_def s_def by blast
qed

text \<open>
  C6, a run of the amended statement: after two renders with one configuration observer 0
  is registered; a render with another disconnects it and then constructs observer 2.
\<close>

theorem config_change_commit_witness:
  "\<not> unmounted (run never_throws (init :: nat hook)
        [Render (Some 7) Undefined (Some optsA), Render (Some 7) Undefined (Some optsA)]) \<and>
   deps1 (run never_throws (init :: nat hook)
        [Render (Some 7) Undefined (Some optsA), Render (Some 7) Undefined (Some optsA)]) =
     Some (1, 1) \<and>
   deps2 (run never_throws (init :: nat hook)
        [Render (Some 7) Undefined (Some optsA), Render (Some 7) Undefined (Some optsA)]) =
     Some (Some 0, Some 7, 1) \<and>
   observing (run never_throws (init :: nat hook)
        [Render (Some 7) Undefined (Some optsA), Render (Some 7) Undefined (Some optsA)]) 0 \<and>
   disconnected (new_events
     (run never_throws (init :: nat hook)
        [Render (Some 7) Undefined (Some optsA), Render (Some 7) Undefined (Some optsA)])
     (step never_throws (run never_throws (init :: nat hook)
        [Render (Some 7) Undefined (Some optsA), Render (Some 7) Undefined (Some optsA)])
        (Render (Some 7) Undefined (Some optsB)))) = [0] \<and>
   created (new_events
     (run never_throws (init :: nat hook)
        [Render (Some 7) Undefined (Some optsA), Render (Some 7) Undefined (Some optsA)])
     (step never_throws (run never_throws (init :: nat hook)
        [Render (Some 7) Undefined (Some optsA), Render (Some 7) Undefined (Some optsA)])
        (Render (Some 7) Undefined (Some optsB)))) = [2] \<and>
   take 2 (new_events
     (run never_throws (init :: nat hook)
        [Render (Some 7) Undefined (Some optsA), Render (Some 7) Undefined (Some optsA)])
     (step never_throws (run never_throws (init :: nat hook)
        [Render (Some 7) Undefined (Some optsA), Render (Some 7) Undefined (Some optsA)])
        (Render (Some 7) Undefined (Some optsB)))) = [Disconnect 0, NewObserver 2] \<and>
   never_two handle_registered []
     (trace (step never_throws (run never_throws (init :: nat hook)
        [Render (Some 7) Undefined (Some optsA), Render (Some 7) Undefined (Some optsA)])
        (Render (Some 7) Undefined (Some optsB))))"
proof -
  define s2 where "s2 = run never_throws (init :: nat hook)
        [Render (Some 7) Undefined (Some optsA), Render (Some 7) Undefined (Some optsA)]"
  have a: "\<not> unmounted s2"
    and b: "deps1 s2 = Some (1, 1)"
    and c: "deps2 s2 = Some (Some 0, Some 7, 1)"
    and d: "obj_id (options_param (Some optsB)) = 2"
    and e: "observing s2 0"
    and n: "next_obs s2 = 2"
    by (simp_all add: s2_def eval_defs optsA_def optsB_def)
  note inst = config_change_commit
    [where throws = never_throws and t = "Some 7" and
      cb = "Undefined :: nat callback_arg" and oa = "Some optsB" and
      es = "[Render (Some 7) Undefined (Some optsA), Render (Some 7) Undefined (Some optsA)]" and
      f = 1 and r = 1 and ob = "Some 0" and t0 = "Some 7", folded s2_def]
  from a b c d have h: "\<not> unmounted s2 \<and> deps1 s2 = Some (1, 1) \<and>
    deps2 s2 = Some (Some 0, Some 7, 1) \<and> 1 \<noteq> obj_id (options_param (Some optsB))"
    by simp
  from inst h e have l: "live_after handle_registered [] (trace s2) = [0]" by blast
  from inst h have r1:
    "disconnected (new_events s2 (step never_throws s2 (Render (Some 7) Undefined (Some optsB)))) =
       live_after handle_registered [] (trace s2)"
    and r2: "created (new_events s2 (step never_throws s2 (Render (Some 7) Undefined (Some optsB)))) =
       [next_obs s2]"
    and r3: "take (Suc (length (live_after handle_registered [] (trace s2))))
       (new_events s2 (step never_throws s2 (Render (Some 7) Undefined (Some optsB)))) =
       map Disconnect (live_after handle_registered [] (trace s2)) @ [NewObserver (next_obs s2)]"
    and r4: "never_two handle_registered []
       (trace (step never_throws s2 (Render (Some 7) Undefined (Some optsB))))"
    by blast+
  from r1 have q1:
    "disconnected (new_events s2 (step never_throws s2 (Render (Some 7) Undefined (Some optsB)))) =
       [0]"
    unfolding l .
  from r2 have q2:
    "created (new_events s2 (step never_throws s2 (Render (Some 7) Undefined (Some optsB)))) = [2]"
    unfolding n .
  from r3 have q3:
    "take 2 (new_events s2 (step never_throws s2 (Render (Some 7) Undefined (Some optsB)))) =
       [Disconnect 0, NewObserver 2]"
    unfolding l n by (simp add: numeral_2_eq_2)
  from a b c e q1 q2 q3 r4 show ?thesis unfolding s2_def by blast
qed

subsection \<open>C7: discarding the instance\<close>

text \<open>
  C7, the active handle being the registered one: in a reachable state of a live
  instance, the discard leaves a state that no later event changes, so the callback is
  never called again; and when an observer is registered, the discard adds to the trace
  exactly the \<^verbatim>\<open>disconnect\<close> of that observer, which had not been disconnected before.
  The observer constructed by the last commit has never been registered and is left alone.
\<close>

theorem discard_disconnects_once:
  "\<not> unmounted (run throws init es) \<longrightarrow>
     (\<forall>es'. run throws (step throws (run throws init es) Unmount) es' =
        step throws (run throws init es) Unmount) \<and>
     (\<forall>h. observing (run throws init es) h \<longrightarrow>
        new_events (run throws init es) (step throws (run throws init es) Unmount) =
          [Disconnect h] \<and>
        Disconnect h \<notin> set (trace (run throws init es)))"
proof (intro impI conjI allI)
  define s where "s = run throws init es"
  assume u: "\<not> unmounted (run throws init es)"
  have r: "reg_inv s" unfolding s_def by (rule reg_inv_run)
  have f: "fresh_inv s" unfolding s_def by (rule fresh_inv_run)
  from u have u': "\<not> unmounted s" by (simp add: s_def)
  have "unmounted (step throws s Unmount)" by simp
  moreover have "\<forall>h. \<not> observing (step throws s Unmount) h"
    using unmount_nothing_observing [OF r u'] by blast
  ultimately show "run throws (step throws (run throws init es) Unmount) es' =
      step throws (run throws init es) Unmount" for es'
    unfolding s_def by (rule run_discarded)
  show "new_events (run throws init es) (step throws (run throws init es) Unmount) =
      [Disconnect h]" if "observing (run throws init es) h" for h
    using that u r by (simp add: s_def reg_inv_def new_events_def)
  show "Disconnect h \<notin> set (trace (run throws init es))"
    if "observing (run throws init es) h" for h
    using that r f by (simp add: s_def reg_inv_def fresh_inv_def)
qed

text \<open>
  C7, a run: after two renders observer 0 is registered; the discard disconnects it, and
  batches for observers 0 and 1 afterwards change nothing.
\<close>

theorem discard_disconnects_once_witness:
  "\<not> unmounted (run never_throws (init :: nat hook)
      [Render (Some 7) (Function (\<lambda>ms h. Some (Value h))) None,
       Render (Some 7) (Function (\<lambda>ms h. Some (Value h))) None]) \<and>
   observing (run never_throws (init :: nat hook)
      [Render (Some 7) (Function (\<lambda>ms h. Some (Value h))) None,
       Render (Some 7) (Function (\<lambda>ms h. Some (Value h))) None]) 0 \<and>
   new_events (run never_throws (init :: nat hook)
      [Render (Some 7) (Function (\<lambda>ms h. Some (Value h))) None,
       Render (Some 7) (Function (\<lambda>ms h. Some (Value h))) None])
     (step never_throws (run never_throws (init :: nat hook)
      [Render (Some 7) (Function (\<lambda>ms h. Some (Value h))) None,
       Render (Some 7) (Function (\<lambda>ms h. Some (Value h))) None]) Unmount) = [Disconnect 0] \<and>
   run never_throws (step never_throws (run never_throws (init :: nat hook)
      [Render (Some 7) (Function (\<lambda>ms h. Some (Value h))) None,
       Render (Some 7) (Function (\<lambda>ms h. Some (Value h))) None]) Unmount) [Notify 0 [], Notify 1 []] =
     step never_throws (run never_throws (init :: nat hook)
      [Render (Some 7) (Function (\<lambda>ms h. Some (Value h))) None,
       Render (Some 7) (Function (\<lambda>ms h. Some (Value h))) None]) Unmount"
proof -
  have a: "\<not> unmounted (run never_throws (init :: nat hook)
      [Render (Some 7) (Function (\<lambda>ms h. Some (Value h))) None,
       Render (Some 7) (Function (\<lambda>ms h. Some (Value h))) None])"
    by (simp add: eval_defs)
  have b: "observing (run never_throws (init :: nat hook)
      [Render (Some 7) (Function (\<lambda>ms h. Some (Value h))) None,
       Render (Some 7) (Function (\<lambda>ms h. Some (Value h))) None]) 0"
    by (simp add: eval_defs)
  from a b discard_disconnects_once [where throws = never_throws and es =
      "[Render (Some 7) (Function (\<lambda>ms h. Some (Value h))) None,
        Render (Some 7) (Function (\<lambda>ms h. Some (Value h))) None]"]
  show ?thesis by blast
qed

subsection \<open>C8: the returned pair\<close>

text \<open>
  C8 as stated fails for the value: with a callback that returns a function, the value
  returned is not the latest defined result. After three renders and one batch for
  observer 1 the only defined result is the function that returns 42, and the next render
  returns 42: line 80 hands the result to the state setter, which applies a function to
  the value stored before.
\<close>

theorem output_not_latest_result_counterexample:
  "defined_results (trace (run never_throws (init :: nat hook)
      [Render (Some 7) (Function (\<lambda>ms h. Some (Updater (\<lambda>p. Some 42)))) None,
       Render (Some 7) (Function (\<lambda>ms h. Some (Updater (\<lambda>p. Some 42)))) None,
       Render (Some 7) (Function (\<lambda>ms h. Some (Updater (\<lambda>p. Some 42)))) None,
       Notify 1 []])) = [Updater (\<lambda>p. Some 42)] \<and>
   fst (useMutationObserver never_throws (Some 7)
      (Function (\<lambda>ms h. Some (Updater (\<lambda>p. Some 42)))) None
      (run never_throws (init :: nat hook)
        [Render (Some 7) (Function (\<lambda>ms h. Some (Updater (\<lambda>p. Some 42)))) None,
         Render (Some 7) (Function (\<lambda>ms h. Some (Updater (\<lambda>p. Some 42)))) None,
         Render (Some 7) (Function (\<lambda>ms h. Some (Updater (\<lambda>p. Some 42)))) None,
         Notify 1 []])) = (Some 42, Some 2)"
  by (simp add: eval_defs)

text \<open>
  C8 as amended: a render returns the pair of the two cells. In every reachable state the
  value is what the setter has stored for the defined results of the callback, taken in
  order from \<^verbatim>\<open>undefined\<close>: \<^verbatim>\<open>undefined\<close> when there was none, the latest result when that
  is not a function, and what the latest result returns for the value stored before it
  when it is a function. The handle is the observer constructed last, \<^verbatim>\<open>null\<close> when none
  was constructed.
\<close>

theorem output_is_stored_value_and_latest_handle:
  "fst (useMutationObserver throws t cb oa (run throws init es)) =
     (stored (defined_results (trace (run throws init es))),
      last_option (created (trace (run throws init es)))) \<and>
   stored [] = (None :: 'v option) \<and>
   stored (rs @ [Value v]) = Some v \<and>
   stored (rs @ [Updater g]) = g (stored rs) \<and>
   last_option [] = (None :: nat option) \<and>
   last_option (hs @ [h]) = Some h"
  using cells_inv_run [of throws es] by (simp add: render_output cells_inv_def last_option_def)

subsection \<open>C9: the default configuration\<close>

text \<open>
  C9: without the third argument the configuration is the module constant, which has
  \<^verbatim>\<open>attributes\<close> true and no other key; every call of \<^verbatim>\<open>observe\<close> made by the commit of
  such a render passes it; and in a reachable state of a live instance that holds an
  observer, such a render with a target does call \<^verbatim>\<open>observe\<close> with it.
\<close>

theorem default_options_attributes_only:
  "options_param None =
     \<lparr>obj_id = 0, attributes = Some True, attributeOldValue = None, attributeFilter = None,
      characterData = None, characterDataOldValue = None, childList = None, subtree = None,
      extra = []\<rparr> \<and>
   (\<forall>h t opts.
      Observe h t opts \<in> set (new_events s (snd (useMutationObserver throws target cb None s))) \<longrightarrow>
      opts = options_param None) \<and>
   (\<not> unmounted (run throws init es) \<and> st_observer (run throws init es) = Some h' \<longrightarrow>
      Observe h' t' (options_param None) \<in>
        set (new_events (run throws init es)
               (step throws (run throws init es) (Render (Some t') cb None))))"
proof (intro conjI impI allI)
  show "options_param None =
     \<lparr>obj_id = 0, attributes = Some True, attributeOldValue = None, attributeFilter = None,
      characterData = None, characterDataOldValue = None, childList = None, subtree = None,
      extra = []\<rparr>"
    by (simp add: options_param_def defaultMutationObserverOptions_def)
next
  fix h t opts
  assume "Observe h t opts \<in>
    set (new_events s (snd (useMutationObserver throws target cb None s)))"
  then show "opts = options_param None"
    by (auto simp: render_trace new_events_def split: if_splits)
next
  assume a: "\<not> unmounted (run throws init es) \<and> st_observer (run throws init es) = Some h'"
  have i: "alloc_inv (run throws init es)" by (rule alloc_inv_run)
  from a show "Observe h' t' (options_param None) \<in>
        set (new_events (run throws init es)
               (step throws (run throws init es) (Render (Some t') cb None)))"
    using render_calls_observe [OF i, of h' t' None throws cb] by simp
qed

text \<open>C9, a run: the second render, without a configuration, observes node 7 with the constant.\<close>

theorem default_options_attributes_only_witness:
  "\<not> unmounted (run never_throws (init :: nat hook) [Render (Some 7) Undefined None]) \<and>
   st_observer (run never_throws (init :: nat hook) [Render (Some 7) Undefined None]) = Some 0 \<and>
   Observe 0 7 (options_param None) \<in>
     set (new_events (run never_throws (init :: nat hook) [Render (Some 7) Undefined None])
       (step never_throws (run never_throws (init :: nat hook) [Render (Some 7) Undefined None])
          (Render (Some 7) Undefined None))) \<and>
   attributes (options_param None) = Some True"
proof -
  have a: "\<not> unmounted (run never_throws (init :: nat hook) [Render (Some 7) Undefined None])"
    and b: "st_observer (run never_throws (init :: nat hook) [Render (Some 7) Undefined None]) =
      Some 0"
    by (simp_all add: eval_defs)
  note inst = default_options_attributes_only
    [where throws = never_throws and es = "[Render (Some 7) Undefined None]" and
      h' = 0 and t' = 7 and cb = "Undefined :: nat callback_arg" and
      s = "init :: nat hook" and target = None]
  from inst a b have x: "Observe 0 7 (options_param None) \<in>
     set (new_events (run never_throws (init :: nat hook) [Render (Some 7) Undefined None])
       (step never_throws (run never_throws (init :: nat hook) [Render (Some 7) Undefined None])
          (Render (Some 7) Undefined None)))"
    by blast
  from inst have "options_param None =
     \<lparr>obj_id = 0, attributes = Some True, attributeOldValue = None, attributeFilter = None,
      characterData = None, characterDataOldValue = None, childList = None, subtree = None,
      extra = []\<rparr>"
    by blast
  then have "attributes (options_param None) = Some True" by simp
  with a b x show ?thesis by blast
qed

subsection \<open>C10: the callback of the first handle\<close>

text \<open>
  C10: \<^verbatim>\<open>handleChanges\<close> with a closed-over \<^verbatim>\<open>observer\<close> of \<^verbatim>\<open>null\<close> returns the state as it
  was (no call of the callback, no new value, no warning), whatever the callback is; and
  in every reachable state a batch for the first observer constructed changes nothing.
\<close>

theorem null_closure_ignores_batch:
  "handleChanges \<lparr>cl_observer = None, cl_callback = cb\<rparr> m s = s \<and>
   (\<forall>h0 hs. created (trace (run throws init es)) = h0 # hs \<longrightarrow>
      step throws (run throws init es) (Notify h0 m) = run throws init es)"
proof -
  define r where "r = run throws init es"
  have a: "alloc_inv r" unfolding r_def by (rule alloc_inv_run)
  have "step throws r (Notify h0 m) = r" if c: "created (trace r) = h0 # hs" for h0 hs
  proof -
    from a c have u: "[0..<next_obs r] = h0 # hs" by (simp add: alloc_inv_def)
    then have n: "0 < next_obs r" by (cases "next_obs r") auto
    with u have h0: "h0 = 0" by (simp add: upt_conv_Cons)
    from a n have "closure_of r 0 \<noteq> None" by (simp add: alloc_inv_def)
    then obtain mo where mo: "observers r 0 = Some mo" by (auto simp: closure_of_def)
    with a have "cl_observer (mo_callback mo) = None" by (simp add: alloc_inv_def closure_of_def)
    with mo h0 show ?thesis by (simp add: deliver_def handleChanges_def)
  qed
  then show ?thesis by (simp add: r_def handleChanges_def)
qed

text \<open>
  C10, a run: with a callback that is a function, observer 0 is registered after the
  second render, and a batch delivered to it leaves the state as it was.
\<close>

theorem null_closure_ignores_batch_witness:
  "created (trace (run never_throws (init :: nat hook)
      [Render (Some 7) (Function (\<lambda>ms h. Some (Value h))) None,
       Render (Some 7) (Function (\<lambda>ms h. Some (Value h))) None])) = 0 # [1] \<and>
   observing (run never_throws (init :: nat hook)
      [Render (Some 7) (Function (\<lambda>ms h. Some (Value h))) None,
       Render (Some 7) (Function (\<lambda>ms h. Some (Value h))) None]) 0 \<and>
   step never_throws (run never_throws (init :: nat hook)
      [Render (Some 7) (Function (\<lambda>ms h. Some (Value h))) None,
       Render (Some 7) (Function (\<lambda>ms h. Some (Value h))) None]) (Notify 0 []) =
   run never_throws (init :: nat hook)
      [Render (Some 7) (Function (\<lambda>ms h. Some (Value h))) None,
       Render (Some 7) (Function (\<lambda>ms h. Some (Value h))) None]"
proof -
  have c: "created (trace (run never_throws (init :: nat hook)
      [Render (Some 7) (Function (\<lambda>ms h. Some (Value h))) None,
       Render (Some 7) (Function (\<lambda>ms h. Some (Value h))) None])) = 0 # [1]"
    and o: "observing (run never_throws (init :: nat hook)
      [Render (Some 7) (Function (\<lambda>ms h. Some (Value h))) None,
       Render (Some 7) (Function (\<lambda>ms h. Some (Value h))) None]) 0"
    by (simp_all add: eval_defs)
  with null_closure_ignores_batch [where throws = never_throws and m = "[]" and es =
      "[Render (Some 7) (Function (\<lambda>ms h. Some (Value h))) None,
        Render (Some 7) (Function (\<lambda>ms h. Some (Value h))) None]"]
  show ?thesis by blast
qed

end
